theory Spec2Isabelle
  imports Complex_Main "HOL-Library.AList" "HOL-Library.Sublist"
begin

section \<open>Entities (order.entity.ts)\<close>

text \<open>
  The enum \<^verbatim>\<open>OrderStatus\<close>; \<open>status_string\<close> gives the string value of each member,
  as it appears in the messages the service builds.
\<close>

datatype OrderStatus = PENDING | CONFIRMED | PROCESSING | SHIPPED | DELIVERED | CANCELLED

fun status_string :: "OrderStatus \<Rightarrow> string" where
  "status_string PENDING = ''pending''"
| "status_string CONFIRMED = ''confirmed''"
| "status_string PROCESSING = ''processing''"
| "status_string SHIPPED = ''shipped''"
| "status_string DELIVERED = ''delivered''"
| "status_string CANCELLED = ''cancelled''"

record ShippingAddress =
  street :: string
  city :: string
  state :: string
  zipCode :: string
  country :: string

text \<open>
  A JavaScript \<^verbatim>\<open>number\<close> is an IEEE double: a finite double, given by its value (the
  two zeros, which \<^verbatim>\<open>===\<close> does not tell apart, are one value here), one of the two
  infinities, or \<^verbatim>\<open>NaN\<close>.
\<close>

datatype number = Number real | PosInfinity | NegInfinity | NaN

text \<open>
  \<^verbatim>\<open>OrderItemDto\<close> (create-order.dto.ts) and the entity \<^verbatim>\<open>OrderItem\<close>, which is the
  DTO spread plus \<^verbatim>\<open>totalPrice\<close>. The generated id, the creation date and the back
  reference of an item are not modelled.
\<close>

record OrderItemDto =
  productId :: string
  productName :: string
  quantity :: number
  unitPrice :: number

record OrderItem = OrderItemDto +
  totalPrice :: number

text \<open>
  The entity \<^verbatim>\<open>Order\<close>. The field \<open>oid\<close> is the column \<^verbatim>\<open>id\<close>; an entity the
  repository has not saved yet has no id, which is the empty string here. The nullable
  columns \<^verbatim>\<open>cancelledAt\<close> and \<^verbatim>\<open>cancelReason\<close> are options, dates are natural
  numbers (a time stamp).
\<close>

record Order =
  oid :: string
  userId :: string
  totalAmount :: number
  status :: OrderStatus
  shippingAddress :: ShippingAddress
  metadata :: "string option"
  items :: "OrderItem list"
  createdAt :: nat
  updatedAt :: nat
  cancelledAt :: "nat option"
  cancelReason :: "string option"

section \<open>Request objects (create-order.dto.ts)\<close>

record CreateOrderDto =
  userId_dto :: string
  items_dto :: "OrderItemDto list"
  shippingAddress_dto :: ShippingAddress

record UpdateOrderStatusDto =
  status_upd :: OrderStatus
  cancelReason_upd :: "string option"

section \<open>Errors\<close>

text \<open>
  The exceptions of the code. \<open>NotFoundException\<close> is the spec's NotFound and
  \<open>BadRequestException\<close> its InvalidTransition; \<open>Error\<close> is the plain
  \<^verbatim>\<open>new Error(message)\<close> of the processor; \<open>CollaboratorError\<close> is whatever a call to
  the store, the cache, a broker, the queue or an external service raises. Each carries
  its message.
\<close>

datatype error =
    NotFoundException string
  | BadRequestException string
  | Error string
  | TypeError string
  | CollaboratorError string

fun message :: "error \<Rightarrow> string" where
  "message (NotFoundException m) = m"
| "message (BadRequestException m) = m"
| "message (Error m) = m"
| "message (TypeError m) = m"
| "message (CollaboratorError m) = m"

section \<open>Collaborators and the world\<close>

text \<open>The payloads the publisher emits and the data of a queue job.\<close>

datatype event =
    ORDER_CREATED nat string string number OrderStatus nat
  | ORDER_STATUS_CHANGED nat string string OrderStatus number
  | ORDER_CANCELLED nat string string "string option" number
  | STATUS_UPDATE string string OrderStatus

record JobData =
  orderId_job :: string
  userId_job :: string

text \<open>What the cache holds: an order (keys \<^verbatim>\<open>order:<id>\<close>) or a page of a listing.\<close>

datatype cache_value = CachedOrder Order | CachedListing "Order list" nat

record cache_entry =
  cached :: cache_value
  ttl :: nat

text \<open>Every call the code makes to a collaborator, with its arguments.\<close>

datatype call =
    RepoSave Order
  | RepoFindOne string
  | CacheGet string
  | CacheSet string cache_value nat
  | CacheDel string
  | CacheKeys string
  | KafkaEmit string event
  | RabbitEmit string event
  | QueueAdd string JobData
  | JobProgress nat
  | CheckInventory string
  | ReserveInventory string
  | InitiatePayment string

text \<open>
  The world the service runs in: the orders table, the cache (an association list, so
  that its keys can be listed), the calls made to collaborators so far, in order, and
  the clock read by \<^verbatim>\<open>new Date()\<close>.
\<close>

record world =
  store :: "string \<rightharpoonup> Order"
  cache :: "(string \<times> cache_entry) list"
  trace :: "call list"
  clock :: nat

text \<open>
  The environment of a run. \<open>fault n = Some m\<close> says that the \<open>n\<close>-th collaborator call
  of the run fails with an error of message \<open>m\<close> (and has no effect); \<open>uuid n\<close> is the id
  the store generates when that call is an insert; \<open>keys_supported\<close> is the test
  \<^verbatim>\<open>typeof store?.keys === 'function'\<close>; \<open>inventoryAvailable\<close> is the answer of the
  inventory check. The stubs of the processor (\<^verbatim>\<open>checkInventory\<close> returning true,
  \<^verbatim>\<open>reserveInventory\<close> and \<^verbatim>\<open>initiatePayment\<close> only waiting) are the environment
  where these three calls never fail and the inventory is always available.
  \<open>round_double x\<close> is the double nearest to the real \<open>x\<close>, for \<open>x\<close> in the range of the
  finite doubles: the rounding of the arithmetic of numbers, which every statement
  below leaves arbitrary. \<open>backoff_factor k\<close> is the factor by which the queue multiplies
  the delay of an exponential backoff before the retry number \<open>k\<close>.
\<close>

record env =
  fault :: "nat \<Rightarrow> string option"
  uuid :: "nat \<Rightarrow> string"
  keys_supported :: bool
  inventoryAvailable :: "string \<Rightarrow> bool"
  round_double :: "real \<Rightarrow> real"
  backoff_factor :: "nat \<Rightarrow> nat"

section \<open>The arithmetic of numbers\<close>

text \<open>
  The operators \<^verbatim>\<open>+\<close> and \<^verbatim>\<open>*\<close> on numbers are those of IEEE 754 in the default
  rounding mode: the exact result is rounded to the nearest double, and a result whose
  magnitude reaches \<open>2^1024 - 2^970\<close>, half a unit in the last place above the largest
  finite double, is the infinity of its sign. \<^verbatim>\<open>NaN\<close> is absorbing, the sum of the two
  infinities and the product of an infinity and zero are \<^verbatim>\<open>NaN\<close>.
\<close>

definition overflow_threshold :: real where
  "overflow_threshold = 2 ^ 1024 - 2 ^ 970"

definition to_double :: "env \<Rightarrow> real \<Rightarrow> number" where
  "to_double env x =
     (if overflow_threshold \<le> x then PosInfinity
      else if x \<le> - overflow_threshold then NegInfinity
      else Number (round_double env x))"

fun times_infinity :: "bool \<Rightarrow> number \<Rightarrow> number" where
  "times_infinity positive (Number x) =
     (if x = 0 then NaN
      else if (0 < x) = positive then PosInfinity else NegInfinity)"
| "times_infinity positive PosInfinity = (if positive then PosInfinity else NegInfinity)"
| "times_infinity positive NegInfinity = (if positive then NegInfinity else PosInfinity)"
| "times_infinity positive NaN = NaN"

fun js_mul :: "env \<Rightarrow> number \<Rightarrow> number \<Rightarrow> number" where
  "js_mul env (Number x) (Number y) = to_double env (x * y)"
| "js_mul env NaN b = NaN"
| "js_mul env PosInfinity b = times_infinity True b"
| "js_mul env NegInfinity b = times_infinity False b"
| "js_mul env a PosInfinity = times_infinity True a"
| "js_mul env a NegInfinity = times_infinity False a"
| "js_mul env a NaN = NaN"

fun js_add :: "env \<Rightarrow> number \<Rightarrow> number \<Rightarrow> number" where
  "js_add env (Number x) (Number y) = to_double env (x + y)"
| "js_add env NaN b = NaN"
| "js_add env a NaN = NaN"
| "js_add env PosInfinity NegInfinity = NaN"
| "js_add env NegInfinity PosInfinity = NaN"
| "js_add env PosInfinity b = PosInfinity"
| "js_add env NegInfinity b = NegInfinity"
| "js_add env a PosInfinity = PosInfinity"
| "js_add env a NegInfinity = NegInfinity"

section \<open>Asynchronous functions\<close>

text \<open>
  An \<^verbatim>\<open>async\<close> function is a function of the world returning its result, an error
  or a value, and the world it leaves: what it did before raising stays done.
\<close>

type_synonym 'a io = "world \<Rightarrow> (error + 'a) \<times> world"

definition returnE :: "'a \<Rightarrow> 'a io" where
  "returnE x = (\<lambda>w. (Inr x, w))"

definition throwE :: "error \<Rightarrow> 'a io" where
  "throwE e = (\<lambda>w. (Inl e, w))"

definition bindE :: "'a io \<Rightarrow> ('a \<Rightarrow> 'b io) \<Rightarrow> 'b io" where
  "bindE m f = (\<lambda>w. case m w of (Inl e, w') \<Rightarrow> (Inl e, w') | (Inr x, w') \<Rightarrow> f x w')"

definition catchE :: "'a io \<Rightarrow> (error \<Rightarrow> 'a io) \<Rightarrow> 'a io" where
  "catchE m h = (\<lambda>w. case m w of (Inl e, w') \<Rightarrow> h e w' | (Inr x, w') \<Rightarrow> (Inr x, w'))"

definition now :: "nat io" where
  "now = (\<lambda>w. (Inr (clock w), w))"

text \<open>
  A call to a collaborator is recorded in the trace and fails when the environment says
  so; it returns its index in the run.
\<close>

definition collaborator :: "env \<Rightarrow> call \<Rightarrow> nat io" where
  "collaborator env c = (\<lambda>w.
     let n = length (trace w); w' = w\<lparr>trace := trace w @ [c]\<rparr>
     in case fault env n of
          Some m \<Rightarrow> (Inl (CollaboratorError m), w')
        | None \<Rightarrow> (Inr n, w'))"

text \<open>
  \<^verbatim>\<open>orderRepository.save\<close>: an entity without id is inserted under a generated id with
  its creation date, an entity with an id is written under that id; the update date is
  set either way. The saved entity is returned.
\<close>

definition repo_save :: "env \<Rightarrow> Order \<Rightarrow> Order io" where
  "repo_save env order = bindE (collaborator env (RepoSave order)) (\<lambda>n w.
     let saved = (if oid order = []
                  then order\<lparr>oid := uuid env n, createdAt := clock w, updatedAt := clock w\<rparr>
                  else order\<lparr>updatedAt := clock w\<rparr>)
     in (Inr saved, w\<lparr>store := (store w)(oid saved \<mapsto> saved)\<rparr>))"

definition repo_findOne :: "env \<Rightarrow> string \<Rightarrow> Order option io" where
  "repo_findOne env i = bindE (collaborator env (RepoFindOne i)) (\<lambda>_ w. (Inr (store w i), w))"

definition cache_get :: "env \<Rightarrow> string \<Rightarrow> cache_value option io" where
  "cache_get env key = bindE (collaborator env (CacheGet key))
     (\<lambda>_ w. (Inr (map_option cached (map_of (cache w) key)), w))"

definition cache_set :: "env \<Rightarrow> string \<Rightarrow> cache_value \<Rightarrow> nat \<Rightarrow> unit io" where
  "cache_set env key v t = bindE (collaborator env (CacheSet key v t))
     (\<lambda>_ w. (Inr (), w\<lparr>cache := AList.update key \<lparr>cached = v, ttl = t\<rparr> (cache w)\<rparr>))"

definition cache_del :: "env \<Rightarrow> string \<Rightarrow> unit io" where
  "cache_del env key = bindE (collaborator env (CacheDel key))
     (\<lambda>_ w. (Inr (), w\<lparr>cache := AList.delete key (cache w)\<rparr>))"

text \<open>
  \<^verbatim>\<open>store.keys(pattern)\<close> with a pattern \<^verbatim>\<open>p*\<close>: the keys of the cache that start
  with \<open>p\<close>.
\<close>

definition cache_keys :: "env \<Rightarrow> string \<Rightarrow> string list io" where
  "cache_keys env p = bindE (collaborator env (CacheKeys (p @ ''*'')))
     (\<lambda>_ w. (Inr (filter (prefix p) (map fst (cache w))), w))"

text \<open>
  \<^verbatim>\<open>this.kafkaClient.emit(topic, ...)\<close> is called as a statement: the observable it
  returns is neither awaited nor subscribed to, so the caller goes on whether the
  delivery fails or not. The call is recorded, at its index in the run, and what the
  environment decides for that index (the delivery failing) never reaches the caller.
  \<^verbatim>\<open>await this.rabbitMqClient.emit(pattern, ...).toPromise()\<close> waits for the delivery
  and raises its failure.
\<close>

definition kafka_emit :: "env \<Rightarrow> string \<Rightarrow> event \<Rightarrow> unit io" where
  "kafka_emit env topic ev = (\<lambda>w. (Inr (), w\<lparr>trace := trace w @ [KafkaEmit topic ev]\<rparr>))"

definition rabbit_emit :: "env \<Rightarrow> string \<Rightarrow> event \<Rightarrow> unit io" where
  "rabbit_emit env pat ev = bindE (collaborator env (RabbitEmit pat ev)) (\<lambda>_. returnE ())"

definition queue_add :: "env \<Rightarrow> string \<Rightarrow> JobData \<Rightarrow> unit io" where
  "queue_add env name d = bindE (collaborator env (QueueAdd name d)) (\<lambda>_. returnE ())"

section \<open>The event publisher (event-publisher.service.ts)\<close>

definition publishOrderCreated :: "env \<Rightarrow> Order \<Rightarrow> unit io" where
  "publishOrderCreated env order =
     catchE
       (bindE now (\<lambda>timestamp.
          let ev = ORDER_CREATED timestamp (oid order) (userId order) (totalAmount order)
                     (status order) (length (items order))
          in bindE (kafka_emit env ''order.created'' ev) (\<lambda>_.
             rabbit_emit env ''order_created'' ev)))
       (\<lambda>error. throwE error)"

definition publishOrderStatusChanged :: "env \<Rightarrow> Order \<Rightarrow> unit io" where
  "publishOrderStatusChanged env order =
     catchE
       (bindE now (\<lambda>timestamp.
          let ev = ORDER_STATUS_CHANGED timestamp (oid order) (userId order) (status order)
                     (totalAmount order)
          in bindE (kafka_emit env ''order.status.changed'' ev) (\<lambda>_.
             if status_string (status order) = ''shipped''
                \<or> status_string (status order) = ''delivered''
             then rabbit_emit env ''order_notification''
                    (STATUS_UPDATE (oid order) (userId order) (status order))
             else returnE ())))
       (\<lambda>error. throwE error)"

definition publishOrderCancelled :: "env \<Rightarrow> Order \<Rightarrow> unit io" where
  "publishOrderCancelled env order =
     catchE
       (bindE now (\<lambda>timestamp.
          let ev = ORDER_CANCELLED timestamp (oid order) (userId order) (cancelReason order)
                     (totalAmount order)
          in bindE (kafka_emit env ''order.cancelled'' ev) (\<lambda>_.
             rabbit_emit env ''order_cancelled'' ev)))
       (\<lambda>error. returnE ())"

section \<open>The order service (order.service.ts)\<close>

text \<open>
  \<^verbatim>\<open>Promise.all(keys.map((key) => this.cacheManager.del(key)))\<close>: every deletion is
  started, and the first failure is the failure of the whole.
\<close>

fun del_all :: "env \<Rightarrow> string list \<Rightarrow> unit io" where
  "del_all env [] = returnE ()"
| "del_all env (key # keys) = (\<lambda>w.
     case cache_del env key w of (r, w1) \<Rightarrow>
       (case del_all env keys w1 of (rs, w2) \<Rightarrow>
          ((case r of Inl e \<Rightarrow> Inl e | Inr _ \<Rightarrow> rs), w2)))"

definition invalidateUserOrdersCache :: "env \<Rightarrow> string \<Rightarrow> unit io" where
  "invalidateUserOrdersCache env uid =
     bindE (if keys_supported env then cache_keys env (''user-orders:'' @ uid @ '':'')
            else returnE [])
       (\<lambda>keys. if length keys = 0 then returnE () else del_all env keys)"

definition validTransitions :: "OrderStatus \<Rightarrow> OrderStatus list" where
  "validTransitions s = (case s of
       PENDING \<Rightarrow> [CONFIRMED, CANCELLED]
     | CONFIRMED \<Rightarrow> [PROCESSING, CANCELLED]
     | PROCESSING \<Rightarrow> [SHIPPED, CANCELLED]
     | SHIPPED \<Rightarrow> [DELIVERED]
     | DELIVERED \<Rightarrow> []
     | CANCELLED \<Rightarrow> [])"

definition validateStatusTransition :: "OrderStatus \<Rightarrow> OrderStatus \<Rightarrow> unit io" where
  "validateStatusTransition currentStatus newStatus =
     (if \<not> List.member (validTransitions currentStatus) newStatus
      then throwE (BadRequestException
             (''Invalid status transition from '' @ status_string currentStatus
                @ '' to '' @ status_string newStatus))
      else returnE ())"

text \<open>
  The entity \<^verbatim>\<open>createOrder\<close> builds with \<^verbatim>\<open>orderRepository.create\<close>: the total is
  the \<^verbatim>\<open>reduce\<close> over the items, from 0 and in the arithmetic of numbers, each item is
  spread and given its \<^verbatim>\<open>totalPrice\<close>. No id and no date is set before the entity is
  saved.
\<close>

definition newOrder :: "env \<Rightarrow> CreateOrderDto \<Rightarrow> Order" where
  "newOrder env createOrderDto =
     (let totalAmount = foldl (\<lambda>sum item.
                                 js_add env sum (js_mul env (unitPrice item) (quantity item)))
                          (Number 0) (items_dto createOrderDto)
      in \<lparr>oid = [], userId = userId_dto createOrderDto, totalAmount = totalAmount,
          status = PENDING, shippingAddress = shippingAddress_dto createOrderDto,
          metadata = None,
          items = map (\<lambda>item. OrderItemDto.extend item
                         (OrderItem.fields (js_mul env (unitPrice item) (quantity item))))
                    (items_dto createOrderDto),
          createdAt = 0, updatedAt = 0, cancelledAt = None, cancelReason = None\<rparr>)"

definition createOrder :: "env \<Rightarrow> CreateOrderDto \<Rightarrow> Order io" where
  "createOrder env createOrderDto =
     bindE (repo_save env (newOrder env createOrderDto)) (\<lambda>savedOrder.
     bindE (publishOrderCreated env savedOrder) (\<lambda>_.
     bindE (queue_add env ''process-order''
              \<lparr>orderId_job = oid savedOrder, userId_job = userId savedOrder\<rparr>) (\<lambda>_.
     bindE (invalidateUserOrdersCache env (userId savedOrder)) (\<lambda>_.
     returnE savedOrder))))"

text \<open>
  \<^verbatim>\<open>findOne\<close>. Only orders are ever stored under the keys \<^verbatim>\<open>order:<id>\<close>; the
  type parameter of \<^verbatim>\<open>get<Order>\<close> asserts it, and the model raises where it does not
  hold.
\<close>

definition findOne :: "env \<Rightarrow> string \<Rightarrow> Order io" where
  "findOne env i =
     (let cacheKey = ''order:'' @ i
      in bindE (cache_get env cacheKey) (\<lambda>hit.
           case hit of
             Some (CachedOrder order) \<Rightarrow> returnE order
           | Some (CachedListing _ _) \<Rightarrow> throwE (TypeError ''cached value is not an order'')
           | None \<Rightarrow>
               bindE (repo_findOne env i) (\<lambda>found.
                 case found of
                   None \<Rightarrow> throwE (NotFoundException (''Order with ID '' @ i @ '' not found''))
                 | Some order \<Rightarrow>
                     bindE (cache_set env cacheKey (CachedOrder order) 300) (\<lambda>_.
                     returnE order))))"

definition updateStatus :: "env \<Rightarrow> string \<Rightarrow> UpdateOrderStatusDto \<Rightarrow> Order io" where
  "updateStatus env i updateDto =
     bindE (findOne env i) (\<lambda>order.
     bindE (validateStatusTransition (status order) (status_upd updateDto)) (\<lambda>_.
     bindE now (\<lambda>date.
       let order1 = order\<lparr>status := status_upd updateDto\<rparr>;
           order2 = (if status_upd updateDto = CANCELLED
                     then order1\<lparr>cancelledAt := Some date,
                            cancelReason := Some (case cancelReason_upd updateDto of
                                                    None \<Rightarrow> [] | Some r \<Rightarrow> r)\<rparr>
                     else order1)
       in bindE (repo_save env order2) (\<lambda>updatedOrder.
          bindE (publishOrderStatusChanged env updatedOrder) (\<lambda>_.
          bindE (cache_del env (''order:'' @ i)) (\<lambda>_.
          bindE (invalidateUserOrdersCache env (userId order2)) (\<lambda>_.
          returnE updatedOrder)))))))"

definition cancelOrder :: "env \<Rightarrow> string \<Rightarrow> string \<Rightarrow> Order io" where
  "cancelOrder env i reason =
     updateStatus env i \<lparr>status_upd = CANCELLED, cancelReason_upd = Some reason\<rparr>"

section \<open>The fulfillment processor (order-processing.processor.ts) and its queue\<close>




record JobResult =
  success :: bool
  orderId :: string
  result_message :: string

definition validateOrder :: "env \<Rightarrow> string \<Rightarrow> unit io" where
  "validateOrder env i = bindE (findOne env i) (\<lambda>order.
     if length (items order) = 0 then throwE (Error ''Order has no items'')
     else returnE ())"

definition checkInventory :: "env \<Rightarrow> string \<Rightarrow> bool io" where
  "checkInventory env i =
     bindE (collaborator env (CheckInventory i)) (\<lambda>_. returnE (inventoryAvailable env i))"

definition reserveInventory :: "env \<Rightarrow> string \<Rightarrow> unit io" where
  "reserveInventory env i = bindE (collaborator env (ReserveInventory i)) (\<lambda>_. returnE ())"

definition initiatePayment :: "env \<Rightarrow> string \<Rightarrow> unit io" where
  "initiatePayment env i = bindE (collaborator env (InitiatePayment i)) (\<lambda>_. returnE ())"

definition job_progress :: "env \<Rightarrow> nat \<Rightarrow> unit io" where
  "job_progress env p = bindE (collaborator env (JobProgress p)) (\<lambda>_. returnE ())"

text \<open>The body of the \<^verbatim>\<open>try\<close> block of \<^verbatim>\<open>handleOrderProcessing\<close>.\<close>

definition processOrderSteps :: "env \<Rightarrow> string \<Rightarrow> JobResult io" where
  "processOrderSteps env i =
     bindE (job_progress env 20) (\<lambda>_.
     bindE (validateOrder env i) (\<lambda>_.
     bindE (job_progress env 40) (\<lambda>_.
     bindE (checkInventory env i) (\<lambda>inventoryOk.
     bindE (if \<not> inventoryOk then throwE (Error ''Insufficient inventory'')
            else returnE ()) (\<lambda>_.
     bindE (job_progress env 60) (\<lambda>_.
     bindE (reserveInventory env i) (\<lambda>_.
     bindE (job_progress env 80) (\<lambda>_.
     bindE (initiatePayment env i) (\<lambda>_.
     bindE (job_progress env 100) (\<lambda>_.
     bindE (updateStatus env i \<lparr>status_upd = CONFIRMED, cancelReason_upd = None\<rparr>) (\<lambda>_.
     returnE \<lparr>success = True, orderId = i,
              result_message = ''Order processed successfully''\<rparr>)))))))))))"

definition handleOrderProcessing :: "env \<Rightarrow> JobData \<Rightarrow> JobResult io" where
  "handleOrderProcessing env job =
     (let i = orderId_job job
      in catchE (processOrderSteps env i)
           (\<lambda>error.
              bindE (updateStatus env i
                       \<lparr>status_upd = CANCELLED, cancelReason_upd = Some (message error)\<rparr>) (\<lambda>_.
              throwE error)))"






section \<open>The transition table of the specification\<close>

text \<open>The function \<^verbatim>\<open>allowedNext\<close> as the specification tabulates it.\<close>

fun spec_allowedNext :: "OrderStatus \<Rightarrow> OrderStatus set" where
  "spec_allowedNext PENDING = {CONFIRMED, CANCELLED}"
| "spec_allowedNext CONFIRMED = {PROCESSING, CANCELLED}"
| "spec_allowedNext PROCESSING = {SHIPPED, CANCELLED}"
| "spec_allowedNext SHIPPED = {DELIVERED}"
| "spec_allowedNext DELIVERED = {}"
| "spec_allowedNext CANCELLED = {}"

text \<open>
  The order \<^verbatim>\<open>save\<close> returns for the entity of a request, when the insert is the
  next call of the run.
\<close>

definition persisted :: "env \<Rightarrow> CreateOrderDto \<Rightarrow> world \<Rightarrow> Order" where
  "persisted env dto w =
     (newOrder env dto)\<lparr>oid := uuid env (length (trace w)), createdAt := clock w,
                         updatedAt := clock w\<rparr>"

text \<open>
  The order of side effects as the specification words it: every call that invalidates
  the cache comes before every call to a broker, and every call to a broker before the
  call that enqueues the job. \<open>all_before P Q cs\<close> says that no \<open>P\<close> call stands at or
  after the first \<open>Q\<close> call of \<open>cs\<close>.
\<close>

fun is_invalidation :: "call \<Rightarrow> bool" where
  "is_invalidation (CacheKeys _) = True"
| "is_invalidation (CacheDel _) = True"
| "is_invalidation _ = False"

fun is_publish :: "call \<Rightarrow> bool" where
  "is_publish (KafkaEmit _ _) = True"
| "is_publish (RabbitEmit _ _) = True"
| "is_publish _ = False"

fun is_enqueue :: "call \<Rightarrow> bool" where
  "is_enqueue (QueueAdd _ _) = True"
| "is_enqueue _ = False"

definition all_before :: "(call \<Rightarrow> bool) \<Rightarrow> (call \<Rightarrow> bool) \<Rightarrow> call list \<Rightarrow> bool" where
  "all_before P Q cs = (\<not> list_ex P (dropWhile (\<lambda>c. \<not> Q c) cs))"

definition spec_createOrder_effect_order :: "call list \<Rightarrow> bool" where
  "spec_createOrder_effect_order cs =
     (all_before is_invalidation is_publish cs \<and> all_before is_publish is_enqueue cs)"

section \<open>Notions used in the statements and proofs\<close>

text \<open>
  The value of a finite number (0 for the three others). A real is representable when
  it is a double: in the range of the finite doubles and left as it is by the rounding.
  \<open>no_rounding env s items\<close> says that the \<^verbatim>\<open>reduce\<close> of \<^verbatim>\<open>createOrder\<close>, continued
  from the sum \<open>s\<close> over \<open>items\<close>, meets finite numbers only and never rounds: every product
  and every partial sum is representable.
\<close>

fun real_value :: "number \<Rightarrow> real" where
  "real_value (Number x) = x"
| "real_value PosInfinity = 0"
| "real_value NegInfinity = 0"
| "real_value NaN = 0"

definition representable :: "env \<Rightarrow> real \<Rightarrow> bool" where
  "representable env x = (\<bar>x\<bar> < overflow_threshold \<and> round_double env x = x)"

fun no_rounding :: "env \<Rightarrow> real \<Rightarrow> OrderItemDto list \<Rightarrow> bool" where
  "no_rounding env s [] = True"
| "no_rounding env s (item # rest) =
     (case unitPrice item of
        Number u \<Rightarrow>
          (case quantity item of
             Number q \<Rightarrow>
               representable env (u * q) \<and> representable env (s + u * q)
               \<and> no_rounding env (s + u * q) rest
           | _ \<Rightarrow> False)
      | _ \<Rightarrow> False)"

text \<open>
  The request the \<^verbatim>\<open>catch\<close> block of the processor passes to \<^verbatim>\<open>updateStatus\<close>.
\<close>

definition cancelDto :: "string \<Rightarrow> UpdateOrderStatusDto" where
  "cancelDto reason = \<lparr>status_upd = CANCELLED, cancelReason_upd = Some reason\<rparr>"

text \<open>
  The calls that mark the steps of the pipeline, the marks in the trace of a world, and
  the marks of a complete run of the \<^verbatim>\<open>try\<close> block, in order.
\<close>

fun is_step :: "call \<Rightarrow> bool" where
  "is_step (JobProgress _) = True"
| "is_step (CheckInventory _) = True"
| "is_step (ReserveInventory _) = True"
| "is_step (InitiatePayment _) = True"
| "is_step _ = False"

definition steps :: "world \<Rightarrow> call list" where
  "steps w = filter is_step (trace w)"




text \<open>
  Hoare triples for \<open>io\<close>: from a world satisfying \<open>P\<close>, a normal return satisfies
  \<open>Q\<close> and a raised error satisfies \<open>E\<close>. \<open>raises K m\<close>: every error \<open>m\<close> raises
  satisfies \<open>K\<close>. \<open>keeps g m\<close>: \<open>m\<close> leaves the observation \<open>g\<close> of the world as it was.
\<close>

definition triple ::
  "(world \<Rightarrow> bool) \<Rightarrow> 'a io \<Rightarrow> ('a \<Rightarrow> world \<Rightarrow> bool) \<Rightarrow> (error \<Rightarrow> world \<Rightarrow> bool) \<Rightarrow> bool" where
  "triple P m Q E =
     (\<forall>w. P w \<longrightarrow> (case m w of (Inl e, w') \<Rightarrow> E e w' | (Inr x, w') \<Rightarrow> Q x w'))"

definition raises :: "(error \<Rightarrow> bool) \<Rightarrow> 'a io \<Rightarrow> bool" where
  "raises K m = (\<forall>w e. fst (m w) = Inl e \<longrightarrow> K e)"

definition keeps :: "(world \<Rightarrow> 'b) \<Rightarrow> 'a io \<Rightarrow> bool" where
  "keeps g m = (\<forall>w. g (snd (m w)) = g w)"

text \<open>
  The only \<^verbatim>\<open>BadRequestException\<close> the \<^verbatim>\<open>try\<close> block of the processor can raise is
  the rejection of the transition to \<^verbatim>\<open>CONFIRMED\<close>.
\<close>

fun no_cancel_rejection :: "error \<Rightarrow> bool" where
  "no_cancel_rejection (BadRequestException m) =
     (\<exists>s. m = ''Invalid status transition from '' @ status_string s @ '' to confirmed'')"
| "no_cancel_rejection _ = True"

text \<open>
  The invariant on the two cancellation fields: both are set when the status is
  \<^verbatim>\<open>CANCELLED\<close> and both are null otherwise. A world is consistent when every stored
  order and every order held in the cache satisfies it.
\<close>

definition cancel_fields_consistent :: "Order \<Rightarrow> bool" where
  "cancel_fields_consistent order =
     ((cancelledAt order \<noteq> None) = (status order = CANCELLED)
      \<and> (cancelReason order \<noteq> None) = (status order = CANCELLED))"

fun cached_consistent :: "cache_value \<Rightarrow> bool" where
  "cached_consistent (CachedOrder order) = cancel_fields_consistent order"
| "cached_consistent (CachedListing orders n) = list_all cancel_fields_consistent orders"

definition world_consistent :: "world \<Rightarrow> bool" where
  "world_consistent w =
     ((\<forall>i order. store w i = Some order \<longrightarrow> cancel_fields_consistent order)
      \<and> (\<forall>key entry. map_of (cache w) key = Some entry \<longrightarrow> cached_consistent (cached entry)))"


text \<open>
  The worlds a run can reach from an empty store and cache: time passes, a cache entry
  expires, and the operations that write orders or copies of orders are called
  (\<^verbatim>\<open>cancelOrder\<close> is a call of \<^verbatim>\<open>updateStatus\<close>). The environment fixes which
  collaborator calls of the run fail. \<^verbatim>\<open>findByUser\<close> and \<^verbatim>\<open>getOrderStats\<close>, which only
  read the store, are not modelled.
\<close>

inductive reachable :: "env \<Rightarrow> world \<Rightarrow> bool" for env :: env where
  start: "reachable env \<lparr>store = Map.empty, cache = [], trace = [], clock = t\<rparr>"
| tick: "reachable env w \<Longrightarrow> clock w \<le> t \<Longrightarrow> reachable env (w\<lparr>clock := t\<rparr>)"
| expire: "reachable env w \<Longrightarrow> reachable env (w\<lparr>cache := AList.delete key (cache w)\<rparr>)"
| create: "reachable env w \<Longrightarrow> reachable env (snd (createOrder env dto w))"
| find: "reachable env w \<Longrightarrow> reachable env (snd (findOne env i w))"
| update: "reachable env w \<Longrightarrow> reachable env (snd (updateStatus env i upd w))"
| process: "reachable env w \<Longrightarrow> reachable env (snd (handleOrderProcessing env job w))"

text \<open>The status and the two cancellation fields of an order.\<close>

definition cancel_fields :: "Order \<Rightarrow> OrderStatus \<times> nat option \<times> string option" where
  "cancel_fields order = (status order, cancelledAt order, cancelReason order)"


section \<open>Example environments, requests and worlds\<close>

text \<open>
  \<open>env_ok\<close> is the environment where no collaborator fails, \<open>env_fault k m\<close> the one
  where the call of index \<open>k\<close> alone fails. The request and the order are those of the
  tests of the service (one laptop at 999.99, which stands for the double so written).
  The rounding of \<open>env_ok\<close> leaves every real as it is: this is the rounding of doubles
  wherever the exact result is a double, as are the product of a double and 1, the sum
  of 0 and a double, and the sums and products of the other examples below. Its queue
  doubles the delay at each retry.
\<close>

definition env_ok :: env where
  "env_ok = \<lparr>fault = (\<lambda>n. None), uuid = (\<lambda>n. ''order-'' @ replicate (Suc n) CHR ''i''),
             keys_supported = True, inventoryAvailable = (\<lambda>i. True),
             round_double = (\<lambda>x. x), backoff_factor = (\<lambda>k. 2 ^ (k - 1))\<rparr>"

definition address_example :: ShippingAddress where
  "address_example = \<lparr>street = ''123 Main St'', city = ''New York'', state = ''NY'',
                      zipCode = ''10001'', country = ''USA''\<rparr>"

definition laptop :: OrderItemDto where
  "laptop = \<lparr>productId = ''prod-1'', productName = ''Laptop'', quantity = Number 1,
             unitPrice = Number (99999 / 100)\<rparr>"

definition order_example :: "OrderStatus \<Rightarrow> Order" where
  "order_example s =
     \<lparr>oid = ''order-123'', userId = ''user-123'', totalAmount = Number (99999 / 100), status = s,
      shippingAddress = address_example, metadata = None,
      items = [OrderItemDto.extend laptop (OrderItem.fields (Number (99999 / 100)))],
      createdAt = 1, updatedAt = 1, cancelledAt = None, cancelReason = None\<rparr>"

definition world_example :: "OrderStatus \<Rightarrow> world" where
  "world_example s = \<lparr>store = [''order-123'' \<mapsto> order_example s], cache = [], trace = [],
                      clock = 5\<rparr>"

definition dto_example :: CreateOrderDto where
  "dto_example = \<lparr>userId_dto = ''user-123'', items_dto = [laptop],
                  shippingAddress_dto = address_example\<rparr>"

text \<open>
  A request of two items whose products and sums are doubles (2 at 999.5 and 3 at
  0.25), and a request whose single product is beyond the largest double.
\<close>

definition dto_two :: CreateOrderDto where
  "dto_two =
     \<lparr>userId_dto = ''user-123'',
      items_dto = [\<lparr>productId = ''prod-1'', productName = ''Laptop'', quantity = Number 2,
                    unitPrice = Number (1999 / 2)\<rparr>,
                   \<lparr>productId = ''prod-2'', productName = ''Cable'', quantity = Number 3,
                    unitPrice = Number (1 / 4)\<rparr>],
      shippingAddress_dto = address_example\<rparr>"

definition dto_huge :: CreateOrderDto where
  "dto_huge =
     \<lparr>userId_dto = ''user-123'',
      items_dto = [\<lparr>productId = ''prod-1'', productName = ''Laptop'', quantity = Number 2,
                    unitPrice = Number (10 ^ 308)\<rparr>],
      shippingAddress_dto = address_example\<rparr>"

definition dto_empty :: CreateOrderDto where
  "dto_empty = \<lparr>userId_dto = ''user-123'', items_dto = [],
                shippingAddress_dto = address_example\<rparr>"

definition world_empty :: world where
  "world_empty = \<lparr>store = Map.empty, cache = [], trace = [], clock = 5\<rparr>"

definition world_listing :: world where
  "world_listing = \<lparr>store = Map.empty,
       cache = [(''user-orders:user-123:1:10'', \<lparr>cached = CachedListing [] 0, ttl = 300\<rparr>)],
       trace = [], clock = 5\<rparr>"

definition env_fault :: "nat \<Rightarrow> string \<Rightarrow> env" where
  "env_fault k m = env_ok\<lparr>fault := (\<lambda>n. if n = k then Some m else None)\<rparr>"

text \<open>An order without items, as \<^verbatim>\<open>createOrder\<close> accepts them, and its job.\<close>

definition order_noitems :: "OrderStatus \<Rightarrow> Order" where
  "order_noitems s =
     \<lparr>oid = ''order-9'', userId = ''user-123'', totalAmount = Number 0, status = s,
      shippingAddress = address_example, metadata = None, items = [],
      createdAt = 1, updatedAt = 1, cancelledAt = None, cancelReason = None\<rparr>"

definition world_noitems :: "OrderStatus \<Rightarrow> world" where
  "world_noitems s = \<lparr>store = [''order-9'' \<mapsto> order_noitems s], cache = [], trace = [],
                      clock = 5\<rparr>"

definition job_example :: JobData where
  "job_example = \<lparr>orderId_job = ''order-9'', userId_job = ''user-123''\<rparr>"



text \<open>
  A run whose call of index 10 fails: after \<^verbatim>\<open>createOrder\<close> (calls 0 to 4) it is the
  deletion of the cache entry in the first \<^verbatim>\<open>updateStatus\<close>.
\<close>

definition env_stale :: env where
  "env_stale = env_fault 10 ''cache down''"

text \<open>
  The world after a request has been accepted and the order then cancelled in that
  run: the cancellation is saved and the cache keeps the copy of the pending order.
  The job of the order created.
\<close>

definition stale_world :: "CreateOrderDto \<Rightarrow> world" where
  "stale_world dto =
     snd (updateStatus env_stale ''order-i'' (cancelDto ''first'')
            (snd (createOrder env_stale dto world_empty)))"

definition job_created :: JobData where
  "job_created = \<lparr>orderId_job = ''order-i'', userId_job = ''user-123''\<rparr>"

definition created_world :: "env \<Rightarrow> world" where
  "created_world env = snd (createOrder env dto_example world_empty)"

definition cancelled_world :: "env \<Rightarrow> string \<Rightarrow> world \<Rightarrow> world" where
  "cancelled_world env reason w = snd (updateStatus env ''order-i'' (cancelDto reason) w)"


section \<open>Basic facts\<close>

lemma validTransitions_allowedNext: "set (validTransitions s) = spec_allowedNext s"
  by (cases s) (simp_all add: validTransitions_def)

lemma returnE_apply: "returnE x w = (Inr x, w)"
  by (simp add: returnE_def)

lemma throwE_apply: "throwE e w = (Inl e, w)"
  by (simp add: throwE_def)

lemma bindE_apply:
  "bindE m f w = (case m w of (Inl e, w') \<Rightarrow> (Inl e, w') | (Inr x, w') \<Rightarrow> f x w')"
  by (simp add: bindE_def)

lemma catchE_apply:
  "catchE m h w = (case m w of (Inl e, w') \<Rightarrow> h e w' | (Inr x, w') \<Rightarrow> (Inr x, w'))"
  by (simp add: catchE_def)

lemma now_apply: "now w = (Inr (clock w), w)"
  by (simp add: now_def)

lemma collaborator_apply:
  "collaborator env c w =
     (case fault env (length (trace w)) of
        Some m \<Rightarrow> (Inl (CollaboratorError m), w\<lparr>trace := trace w @ [c]\<rparr>)
      | None \<Rightarrow> (Inr (length (trace w)), w\<lparr>trace := trace w @ [c]\<rparr>))"
  by (simp add: collaborator_def Let_def)

lemmas io_simps = bindE_apply returnE_apply throwE_apply catchE_apply now_apply
  collaborator_apply Let_def

lemmas prim_defs = repo_save_def repo_findOne_def cache_get_def cache_set_def cache_del_def
  cache_keys_def kafka_emit_def rabbit_emit_def queue_add_def

lemma cache_del_apply:
  "cache_del env k w =
     (case fault env (length (trace w)) of
        Some m \<Rightarrow> (Inl (CollaboratorError m), w\<lparr>trace := trace w @ [CacheDel k]\<rparr>)
      | None \<Rightarrow> (Inr (), w\<lparr>trace := trace w @ [CacheDel k],
                             cache := AList.delete k (cache w)\<rparr>))"
  by (simp add: cache_del_def io_simps split: option.splits)

lemma del_all_Cons:
  "del_all env (k # ks) w =
     ((case fst (cache_del env k w) of Inl e \<Rightarrow> Inl e
       | Inr _ \<Rightarrow> fst (del_all env ks (snd (cache_del env k w)))),
      snd (del_all env ks (snd (cache_del env k w))))"
  by (simp add: split_beta)

lemma del_all_store: "store (snd (del_all env ks w)) = store w"
  by (induction ks arbitrary: w)
     (simp_all add: returnE_apply del_all_Cons cache_del_apply split: option.splits
        del: del_all.simps(2))

lemma del_all_trace: "trace (snd (del_all env ks w)) = trace w @ map CacheDel ks"
  by (induction ks arbitrary: w)
     (simp_all add: returnE_apply del_all_Cons cache_del_apply split: option.splits
        del: del_all.simps(2))

lemma del_all_clock: "clock (snd (del_all env ks w)) = clock w"
  by (induction ks arbitrary: w)
     (simp_all add: returnE_apply del_all_Cons cache_del_apply split: option.splits
        del: del_all.simps(2))

lemma del_all_ok: "\<forall>n. fault env n = None \<Longrightarrow> fst (del_all env ks w) = Inr ()"
  by (induction ks arbitrary: w)
     (simp_all add: returnE_apply del_all_Cons cache_del_apply del: del_all.simps(2))

lemma del_all_error: "fst (del_all env ks w) = Inl e \<Longrightarrow> \<exists>m. e = CollaboratorError m"
proof (induction ks arbitrary: w)
  case Nil
  then show ?case by (simp add: returnE_apply)
next
  case (Cons k ks)
  then show ?case
    by (auto simp: del_all_Cons cache_del_apply split: option.splits sum.splits
        simp del: del_all.simps(2))
qed

lemma invalidate_store: "store (snd (invalidateUserOrdersCache env u w)) = store w"
  by (simp add: invalidateUserOrdersCache_def io_simps cache_keys_def del_all_store
      split: option.splits)

lemma invalidate_trace:
  "trace (snd (invalidateUserOrdersCache env u w)) =
     trace w @ (if keys_supported env
                then CacheKeys (''user-orders:'' @ u @ '':*'')
                       # (case fault env (length (trace w)) of
                            Some m \<Rightarrow> []
                          | None \<Rightarrow> map CacheDel (filter (prefix (''user-orders:'' @ u @ '':''))
                                                     (map fst (cache w))))
                else [])"
  by (simp add: invalidateUserOrdersCache_def io_simps cache_keys_def del_all_trace
      split: option.splits)

lemma invalidate_ok:
  "\<forall>n. fault env n = None \<Longrightarrow> fst (invalidateUserOrdersCache env u w) = Inr ()"
  by (simp add: invalidateUserOrdersCache_def io_simps cache_keys_def del_all_ok)

lemma invalidate_error:
  "fst (invalidateUserOrdersCache env u w) = Inl e \<Longrightarrow> \<exists>m. e = CollaboratorError m"
  by (auto simp: invalidateUserOrdersCache_def io_simps cache_keys_def
      split: option.splits if_splits dest: del_all_error)

lemma oid_newOrder: "oid (newOrder env dto) = []"
  by (simp add: newOrder_def)

lemma repo_save_new:
  "repo_save env (newOrder env dto) w =
     (case fault env (length (trace w)) of
        Some m \<Rightarrow> (Inl (CollaboratorError m), w\<lparr>trace := trace w @ [RepoSave (newOrder env dto)]\<rparr>)
      | None \<Rightarrow> (Inr (persisted env dto w),
                 w\<lparr>trace := trace w @ [RepoSave (newOrder env dto)],
                   store := (store w)(uuid env (length (trace w)) \<mapsto> persisted env dto w)\<rparr>))"
  by (simp add: repo_save_def io_simps oid_newOrder persisted_def split: option.splits)

lemma kafka_emit_apply:
  "kafka_emit env topic ev w = (Inr (), w\<lparr>trace := trace w @ [KafkaEmit topic ev]\<rparr>)"
  by (simp add: kafka_emit_def)

lemma rabbit_emit_apply:
  "rabbit_emit env pat ev w =
     (case fault env (length (trace w)) of
        Some m \<Rightarrow> (Inl (CollaboratorError m), w\<lparr>trace := trace w @ [RabbitEmit pat ev]\<rparr>)
      | None \<Rightarrow> (Inr (), w\<lparr>trace := trace w @ [RabbitEmit pat ev]\<rparr>))"
  by (simp add: rabbit_emit_def io_simps split: option.splits)

lemma publishOrderCreated_apply:
  "publishOrderCreated env order w =
     (let ev = ORDER_CREATED (clock w) (oid order) (userId order) (totalAmount order)
                 (status order) (length (items order));
          w' = w\<lparr>trace := trace w @ [KafkaEmit ''order.created'' ev,
                                     RabbitEmit ''order_created'' ev]\<rparr>
      in case fault env (Suc (length (trace w))) of
           Some m \<Rightarrow> (Inl (CollaboratorError m), w')
         | None \<Rightarrow> (Inr (), w'))"
  by (simp add: publishOrderCreated_def io_simps kafka_emit_apply rabbit_emit_apply
      split: option.splits)

lemma queue_add_apply:
  "queue_add env name d w =
     (case fault env (length (trace w)) of
        Some m \<Rightarrow> (Inl (CollaboratorError m), w\<lparr>trace := trace w @ [QueueAdd name d]\<rparr>)
      | None \<Rightarrow> (Inr (), w\<lparr>trace := trace w @ [QueueAdd name d]\<rparr>))"
  by (simp add: queue_add_def io_simps split: option.splits)

lemma bindE_snd:
  "bindE m f w = (case fst (m w) of Inl e \<Rightarrow> (Inl e, snd (m w)) | Inr x \<Rightarrow> f x (snd (m w)))"
  by (simp add: bindE_def split: prod.splits sum.splits)

lemma createOrder_store:
  "store (snd (createOrder env dto w)) =
     (case fault env (length (trace w)) of
        Some m \<Rightarrow> store w
      | None \<Rightarrow> (store w)(uuid env (length (trace w)) \<mapsto> persisted env dto w))"
  by (simp add: createOrder_def bindE_snd repo_save_new publishOrderCreated_apply
      queue_add_apply returnE_apply invalidate_store Let_def
      split: option.splits sum.splits)

lemma createOrder_result:
  "fst (createOrder env dto w) = Inr order \<Longrightarrow> order = persisted env dto w"
  by (simp add: createOrder_def bindE_snd repo_save_new publishOrderCreated_apply
      queue_add_apply returnE_apply Let_def
      split: option.splits sum.splits)

lemma createOrder_error:
  "fst (createOrder env dto w) = Inl e \<Longrightarrow> \<exists>m. e = CollaboratorError m"
  by (auto simp: createOrder_def bindE_snd repo_save_new publishOrderCreated_apply
      queue_add_apply returnE_apply Let_def
      split: option.splits sum.splits dest: invalidate_error)

lemma createOrder_ok:
  "\<forall>n. fault env n = None \<Longrightarrow> fst (createOrder env dto w) = Inr (persisted env dto w)"
  by (simp add: createOrder_def bindE_snd repo_save_new publishOrderCreated_apply
      queue_add_apply returnE_apply Let_def invalidate_ok)

lemma invalidate_Inr_keys:
  "fst (invalidateUserOrdersCache env u w) = Inr () \<Longrightarrow> keys_supported env \<Longrightarrow>
   fault env (length (trace w)) = None"
  by (simp add: invalidateUserOrdersCache_def bindE_snd cache_keys_def collaborator_apply
      split: option.splits)

lemma createOrder_trace:
  "fst (createOrder env dto w) = Inr order \<Longrightarrow>
   trace (snd (createOrder env dto w)) =
     trace w @
     [RepoSave (newOrder env dto),
      KafkaEmit ''order.created''
        (ORDER_CREATED (clock w) (oid order) (userId order) (totalAmount order) PENDING
           (length (items order))),
      RabbitEmit ''order_created''
        (ORDER_CREATED (clock w) (oid order) (userId order) (totalAmount order) PENDING
           (length (items order))),
      QueueAdd ''process-order'' \<lparr>orderId_job = oid order, userId_job = userId order\<rparr>]
     @ (if keys_supported env
        then CacheKeys (''user-orders:'' @ userId order @ '':*'')
               # map CacheDel (filter (prefix (''user-orders:'' @ userId order @ '':''))
                                 (map fst (cache w)))
        else [])"
proof -
  assume r: "fst (createOrder env dto w) = Inr order"
  have o: "order = persisted env dto w"
    by (rule createOrder_result [OF r])
  have p: "status (persisted env dto w) = PENDING"
    by (simp add: persisted_def newOrder_def)
  from r show ?thesis
    unfolding o
    by (auto simp: createOrder_def bindE_snd repo_save_new publishOrderCreated_apply
        queue_add_apply returnE_apply Let_def invalidate_trace p
        split: option.splits sum.splits dest: invalidate_Inr_keys)
qed

lemma overflow_threshold_large: "1000000 < overflow_threshold"
proof -
  have "(1000000 :: real) < 2 ^ 970"
    by simp
  moreover have "(2 :: real) ^ 970 * 2 \<le> 2 ^ 1024"
    by simp
  ultimately show ?thesis
    unfolding overflow_threshold_def by linarith
qed

lemma to_double_in_range:
  "\<bar>x\<bar> \<le> 1000000 \<Longrightarrow> to_double env x = Number (round_double env x)"
  using overflow_threshold_large by (auto simp: to_double_def)

lemma to_double_exact:
  "\<bar>x\<bar> \<le> 1000000 \<Longrightarrow> round_double env x = x \<Longrightarrow> to_double env x = Number x"
  by (simp add: to_double_in_range)

lemma round_double_env_ok: "round_double env_ok x = x"
  by (simp add: env_ok_def)

lemmas number_simps = to_double_exact round_double_env_ok

lemma totalAmount_newOrder:
  "totalAmount (newOrder env dto) =
     foldl (\<lambda>sum item. js_add env sum (js_mul env (unitPrice item) (quantity item)))
       (Number 0) (items_dto dto)"
  by (simp add: newOrder_def)

lemma items_newOrder:
  "items (newOrder env dto) =
     map (\<lambda>item. OrderItemDto.extend item
                   (OrderItem.fields (js_mul env (unitPrice item) (quantity item))))
       (items_dto dto)"
  by (simp add: newOrder_def)

lemma extend_fields:
  "totalPrice (OrderItemDto.extend item (OrderItem.fields p)) = p"
  "unitPrice (OrderItemDto.extend item (OrderItem.fields p)) = unitPrice item"
  "quantity (OrderItemDto.extend item (OrderItem.fields p)) = quantity item"
  "productId (OrderItemDto.extend item (OrderItem.fields p)) = productId item"
  "productName (OrderItemDto.extend item (OrderItem.fields p)) = productName item"
  by (simp_all add: OrderItemDto.extend_def OrderItem.fields_def)


section \<open>Creating an order\<close>

lemma to_double_representable: "representable env x \<Longrightarrow> to_double env x = Number x"
  using overflow_threshold_large by (auto simp: representable_def to_double_def)

lemma foldl_no_rounding:
  "no_rounding env s xs \<Longrightarrow>
   foldl (\<lambda>sum item. js_add env sum (js_mul env (unitPrice item) (quantity item)))
     (Number s) xs =
   Number (s + (\<Sum>item\<leftarrow>xs. real_value (unitPrice item) * real_value (quantity item)))"
proof (induction xs arbitrary: s)
  case Nil
  then show ?case by simp
next
  case (Cons item rest)
  from Cons.prems obtain u q where u: "unitPrice item = Number u"
    and q: "quantity item = Number q"
    and p: "representable env (u * q)" and a: "representable env (s + u * q)"
    and r: "no_rounding env (s + u * q) rest"
    by (auto split: number.splits)
  have "js_add env (Number s) (js_mul env (unitPrice item) (quantity item)) = Number (s + u * q)"
    by (simp add: u q to_double_representable [OF p] to_double_representable [OF a])
  with Cons.IH [OF r] show ?case
    by (simp add: u q add.assoc)
qed

text \<open>
  C5, as the specification states it, fails: the products and the sum are those of
  doubles. Two units at \<open>10^308\<close> have the infinite \<^verbatim>\<open>totalPrice\<close> and
  \<^verbatim>\<open>totalAmount\<close>, not the product \<open>2 * 10^308\<close>.
\<close>

theorem createOrder_totals_overflow_counterexample:
  "fst (createOrder env_ok dto_huge world_empty) =
     Inr \<lparr>oid = ''order-i'', userId = ''user-123'', totalAmount = PosInfinity,
          status = PENDING, shippingAddress = address_example, metadata = None,
          items = [\<lparr>productId = ''prod-1'', productName = ''Laptop'', quantity = Number 2,
                    unitPrice = Number (10 ^ 308), totalPrice = PosInfinity\<rparr>],
          createdAt = 5, updatedAt = 5, cancelledAt = None, cancelReason = None\<rparr>
   \<and> items_dto dto_huge \<noteq> []
   \<and> PosInfinity \<noteq> Number (\<Sum>item\<leftarrow>items_dto dto_huge.
                                real_value (unitPrice item) * real_value (quantity item))"
proof -
  have n: "\<forall>n. fault env_ok n = None"
    by (simp add: env_ok_def)
  have "persisted env_ok dto_huge world_empty =
     \<lparr>oid = ''order-i'', userId = ''user-123'', totalAmount = PosInfinity,
          status = PENDING, shippingAddress = address_example, metadata = None,
          items = [\<lparr>productId = ''prod-1'', productName = ''Laptop'', quantity = Number 2,
                    unitPrice = Number (10 ^ 308), totalPrice = PosInfinity\<rparr>],
          createdAt = 5, updatedAt = 5, cancelledAt = None, cancelReason = None\<rparr>"
    by (simp add: persisted_def newOrder_def dto_huge_def world_empty_def to_double_def
        overflow_threshold_def OrderItemDto.extend_def OrderItem.fields_def)
       (simp add: env_ok_def)
  with createOrder_ok [OF n, of dto_huge world_empty] show ?thesis
    by (simp add: dto_huge_def)
qed

text \<open>
  C5, amended. Whenever \<^verbatim>\<open>createOrder\<close> returns an order, its status is
  \<^verbatim>\<open>PENDING\<close>; it has one item per item of the request, with the same price and
  quantity and with \<^verbatim>\<open>totalPrice\<close> the product of the two in the arithmetic of
  doubles; and its \<^verbatim>\<open>totalAmount\<close> is the sum of these products, taken from 0 in the
  order of the list in the arithmetic of doubles, which is the sum of the
  \<^verbatim>\<open>totalPrice\<close> of its items. Where no product and no partial sum is rounded or
  overflows, this is the exact sum of the exact products. When no collaborator fails,
  \<^verbatim>\<open>createOrder\<close> does return an order. This holds for every item list, so for every
  non-empty one.
\<close>

theorem createOrder_totals:
  "(\<forall>order. fst (createOrder env dto w) = Inr order \<longrightarrow>
      totalAmount order =
        foldl (\<lambda>sum item. js_add env sum (js_mul env (unitPrice item) (quantity item)))
          (Number 0) (items_dto dto)
      \<and> totalAmount order = foldl (js_add env) (Number 0) (map totalPrice (items order))
      \<and> length (items order) = length (items_dto dto)
      \<and> (\<forall>k < length (items_dto dto).
            unitPrice (items order ! k) = unitPrice (items_dto dto ! k)
            \<and> quantity (items order ! k) = quantity (items_dto dto ! k)
            \<and> totalPrice (items order ! k) =
                js_mul env (unitPrice (items order ! k)) (quantity (items order ! k)))
      \<and> status order = PENDING
      \<and> (no_rounding env 0 (items_dto dto) \<longrightarrow>
           totalAmount order =
             Number (\<Sum>item\<leftarrow>items_dto dto.
                       real_value (unitPrice item) * real_value (quantity item))))
   \<and> ((\<forall>n. fault env n = None) \<longrightarrow> (\<exists>order. fst (createOrder env dto w) = Inr order))"
proof -
  let ?p = "persisted env dto w"
  have t: "totalAmount ?p =
        foldl (\<lambda>sum item. js_add env sum (js_mul env (unitPrice item) (quantity item)))
          (Number 0) (items_dto dto)"
    by (simp add: persisted_def totalAmount_newOrder)
  have i: "items ?p = items (newOrder env dto)"
    by (simp add: persisted_def)
  have m: "map totalPrice (items (newOrder env dto)) =
             map (\<lambda>item. js_mul env (unitPrice item) (quantity item)) (items_dto dto)"
    by (simp add: items_newOrder extend_fields comp_def)
  have t2: "totalAmount ?p = foldl (js_add env) (Number 0) (map totalPrice (items ?p))"
    by (simp only: t i m foldl_map)
  have l: "length (items ?p) = length (items_dto dto)"
    by (simp add: i items_newOrder)
  have k: "\<forall>k < length (items_dto dto).
            unitPrice (items ?p ! k) = unitPrice (items_dto dto ! k)
            \<and> quantity (items ?p ! k) = quantity (items_dto dto ! k)
            \<and> totalPrice (items ?p ! k) =
                js_mul env (unitPrice (items ?p ! k)) (quantity (items ?p ! k))"
    by (simp add: i items_newOrder extend_fields)
  have st: "status ?p = PENDING"
    by (simp add: persisted_def newOrder_def)
  have x: "no_rounding env 0 (items_dto dto) \<longrightarrow>
           totalAmount ?p =
             Number (\<Sum>item\<leftarrow>items_dto dto.
                       real_value (unitPrice item) * real_value (quantity item))"
    using foldl_no_rounding [of env 0 "items_dto dto"] by (simp add: t)
  have a: "\<forall>order. fst (createOrder env dto w) = Inr order \<longrightarrow> order = ?p"
    using createOrder_result [of env dto w] by blast
  have b: "(\<forall>n. fault env n = None) \<longrightarrow> (\<exists>order. fst (createOrder env dto w) = Inr order)"
    using createOrder_ok [of env dto w] by blast
  from t t2 l k st x have "totalAmount ?p =
        foldl (\<lambda>sum item. js_add env sum (js_mul env (unitPrice item) (quantity item)))
          (Number 0) (items_dto dto)
      \<and> totalAmount ?p = foldl (js_add env) (Number 0) (map totalPrice (items ?p))
      \<and> length (items ?p) = length (items_dto dto)
      \<and> (\<forall>k < length (items_dto dto).
            unitPrice (items ?p ! k) = unitPrice (items_dto dto ! k)
            \<and> quantity (items ?p ! k) = quantity (items_dto dto ! k)
            \<and> totalPrice (items ?p ! k) =
                js_mul env (unitPrice (items ?p ! k)) (quantity (items ?p ! k)))
      \<and> status ?p = PENDING
      \<and> (no_rounding env 0 (items_dto dto) \<longrightarrow>
           totalAmount ?p =
             Number (\<Sum>item\<leftarrow>items_dto dto.
                       real_value (unitPrice item) * real_value (quantity item)))"
    by (intro conjI)
  with a b show ?thesis by blast
qed

theorem createOrder_totals_witness:
  "fst (createOrder env_ok dto_two world_empty) =
     Inr \<lparr>oid = ''order-i'', userId = ''user-123'', totalAmount = Number (7999 / 4),
          status = PENDING, shippingAddress = address_example, metadata = None,
          items = [\<lparr>productId = ''prod-1'', productName = ''Laptop'', quantity = Number 2,
                    unitPrice = Number (1999 / 2), totalPrice = Number 1999\<rparr>,
                   \<lparr>productId = ''prod-2'', productName = ''Cable'', quantity = Number 3,
                    unitPrice = Number (1 / 4), totalPrice = Number (3 / 4)\<rparr>],
          createdAt = 5, updatedAt = 5, cancelledAt = None, cancelReason = None\<rparr>
   \<and> no_rounding env_ok 0 (items_dto dto_two)
   \<and> (\<Sum>item\<leftarrow>items_dto dto_two. real_value (unitPrice item) * real_value (quantity item))
       = 7999 / 4"
proof -
  have n: "\<forall>n. fault env_ok n = None"
    by (simp add: env_ok_def)
  have r: "\<bar>x\<bar> \<le> 1000000 \<Longrightarrow> representable env_ok x" for x
    using overflow_threshold_large by (simp add: representable_def env_ok_def)
  have e: "no_rounding env_ok 0 (items_dto dto_two)"
    by (simp add: dto_two_def r)
  have d: "\<bar>x\<bar> \<le> 1000000 \<Longrightarrow> to_double env_ok x = Number x" for x
    by (simp add: to_double_in_range) (simp add: env_ok_def)
  have p: "persisted env_ok dto_two world_empty =
     \<lparr>oid = ''order-i'', userId = ''user-123'', totalAmount = Number (7999 / 4),
          status = PENDING, shippingAddress = address_example, metadata = None,
          items = [\<lparr>productId = ''prod-1'', productName = ''Laptop'', quantity = Number 2,
                    unitPrice = Number (1999 / 2), totalPrice = Number 1999\<rparr>,
                   \<lparr>productId = ''prod-2'', productName = ''Cable'', quantity = Number 3,
                    unitPrice = Number (1 / 4), totalPrice = Number (3 / 4)\<rparr>],
          createdAt = 5, updatedAt = 5, cancelledAt = None, cancelReason = None\<rparr>"
    by (simp add: persisted_def newOrder_def dto_two_def world_empty_def d
        OrderItemDto.extend_def OrderItem.fields_def)
       (simp add: env_ok_def)
  from createOrder_totals [of env_ok dto_two world_empty] n
  obtain order where o: "fst (createOrder env_ok dto_two world_empty) = Inr order"
    by blast
  have "order = persisted env_ok dto_two world_empty"
    by (rule createOrder_result [OF o])
  with o e p show ?thesis
    by (simp add: dto_two_def)
qed

text \<open>
  C2, as the specification states it, fails: \<^verbatim>\<open>createOrder\<close> has no check on the
  length of \<^verbatim>\<open>items\<close>. A request with no item is persisted with total 0.
\<close>

theorem createOrder_empty_items_counterexample:
  "fst (createOrder env_ok dto_empty world_empty) =
     Inr \<lparr>oid = ''order-i'', userId = ''user-123'', totalAmount = Number 0,
          status = PENDING, shippingAddress = address_example, metadata = None,
          items = [], createdAt = 5, updatedAt = 5, cancelledAt = None,
          cancelReason = None\<rparr>
   \<and> store (snd (createOrder env_ok dto_empty world_empty)) ''order-i'' =
     Some \<lparr>oid = ''order-i'', userId = ''user-123'', totalAmount = Number 0,
          status = PENDING, shippingAddress = address_example, metadata = None,
          items = [], createdAt = 5, updatedAt = 5, cancelledAt = None,
          cancelReason = None\<rparr>"
proof -
  have n: "\<forall>n. fault env_ok n = None"
    by (simp add: env_ok_def)
  have p: "persisted env_ok dto_empty world_empty =
     \<lparr>oid = ''order-i'', userId = ''user-123'', totalAmount = Number 0,
          status = PENDING, shippingAddress = address_example, metadata = None,
          items = [], createdAt = 5, updatedAt = 5, cancelledAt = None,
          cancelReason = None\<rparr>"
    by (simp add: persisted_def newOrder_def dto_empty_def world_empty_def env_ok_def)
  have u: "uuid env_ok (length (trace world_empty)) = ''order-i''"
    by (simp add: env_ok_def world_empty_def)
  show ?thesis
    using createOrder_ok [OF n, of dto_empty world_empty]
    by (simp add: createOrder_store n p u)
qed

text \<open>
  C2, amended. For a request with an empty item list, \<^verbatim>\<open>createOrder\<close> behaves as for
  any other: every order it returns has no item, total 0 and status \<^verbatim>\<open>PENDING\<close> and
  is in the store; when no collaborator fails it returns one; and every error it
  raises is the error of a collaborator, never a validation error.
\<close>

theorem createOrder_accepts_empty_items:
  assumes "items_dto dto = []"
  shows "(\<forall>order. fst (createOrder env dto w) = Inr order \<longrightarrow>
            items order = [] \<and> totalAmount order = Number 0 \<and> status order = PENDING
            \<and> store (snd (createOrder env dto w)) (oid order) = Some order)
       \<and> ((\<forall>n. fault env n = None) \<longrightarrow> (\<exists>order. fst (createOrder env dto w) = Inr order))
       \<and> (\<forall>e. fst (createOrder env dto w) = Inl e \<longrightarrow> (\<exists>m. e = CollaboratorError m))"
proof -
  have p: "items (persisted env dto w) = [] \<and> totalAmount (persisted env dto w) = Number 0
           \<and> status (persisted env dto w) = PENDING
           \<and> oid (persisted env dto w) = uuid env (length (trace w))"
    using assms by (simp add: persisted_def newOrder_def)
  have s: "store (snd (createOrder env dto w)) (uuid env (length (trace w)))
             = Some (persisted env dto w)"
    if "fst (createOrder env dto w) = Inr order" for order
  proof -
    have "fault env (length (trace w)) = None"
      using that
      by (simp add: createOrder_def bindE_snd repo_save_new split: option.splits)
    then show ?thesis
      by (simp add: createOrder_store)
  qed
  have a: "\<forall>order. fst (createOrder env dto w) = Inr order \<longrightarrow>
            items order = [] \<and> totalAmount order = Number 0 \<and> status order = PENDING
            \<and> store (snd (createOrder env dto w)) (oid order) = Some order"
    using createOrder_result [of env dto w] p s by metis
  have b: "(\<forall>n. fault env n = None) \<longrightarrow> (\<exists>order. fst (createOrder env dto w) = Inr order)"
    using createOrder_ok [of env dto w] by blast
  have c: "\<forall>e. fst (createOrder env dto w) = Inl e \<longrightarrow> (\<exists>m. e = CollaboratorError m)"
    using createOrder_error [of env dto w] by blast
  from a b c show ?thesis by blast
qed

theorem createOrder_accepts_empty_items_witness:
  "items_dto dto_empty = []
   \<and> (\<exists>order. fst (createOrder env_ok dto_empty world_empty) = Inr order
        \<and> items order = [] \<and> totalAmount order = Number 0 \<and> status order = PENDING
        \<and> store (snd (createOrder env_ok dto_empty world_empty)) (oid order) = Some order)"
proof -
  have e: "items_dto dto_empty = []"
    by (simp add: dto_empty_def)
  have n: "\<forall>n. fault env_ok n = None"
    by (simp add: env_ok_def)
  from createOrder_accepts_empty_items [OF e, of env_ok world_empty] n e
  show ?thesis by blast
qed

text \<open>
  C4. If the save fails, \<^verbatim>\<open>createOrder\<close> raises that error and leaves the world as
  it was but for the record of the attempted save: nothing is stored, the cache is
  untouched, and no broker, queue or cache call is made. If the save succeeds, the
  saved order is in the store when \<^verbatim>\<open>createOrder\<close> ends, whatever happens afterwards,
  in particular when publishing or enqueueing then fails.
\<close>

theorem createOrder_persistence_gate:
  "(\<forall>m. fault env (length (trace w)) = Some m \<longrightarrow>
      createOrder env dto w =
        (Inl (CollaboratorError m), w\<lparr>trace := trace w @ [RepoSave (newOrder env dto)]\<rparr>))
   \<and> (fault env (length (trace w)) = None \<longrightarrow>
        store (snd (createOrder env dto w)) =
          (store w)(uuid env (length (trace w)) \<mapsto> persisted env dto w)
        \<and> (\<forall>e. fst (createOrder env dto w) = Inl e \<longrightarrow>
              store (snd (createOrder env dto w)) (uuid env (length (trace w))) =
                Some (persisted env dto w)))"
proof -
  have a: "createOrder env dto w =
        (Inl (CollaboratorError m), w\<lparr>trace := trace w @ [RepoSave (newOrder env dto)]\<rparr>)"
    if "fault env (length (trace w)) = Some m" for m
    using that by (simp add: createOrder_def bindE_apply repo_save_new)
  have b: "store (snd (createOrder env dto w)) =
          (store w)(uuid env (length (trace w)) \<mapsto> persisted env dto w)"
    if "fault env (length (trace w)) = None"
    using that by (simp add: createOrder_store)
  from a b show ?thesis by simp
qed

theorem createOrder_persistence_gate_witness:
  "createOrder (env_fault 0 ''store down'') dto_example world_empty =
     (Inl (CollaboratorError ''store down''),
      world_empty\<lparr>trace := [RepoSave (newOrder (env_fault 0 ''store down'') dto_example)]\<rparr>)
   \<and> fst (createOrder (env_fault 2 ''broker down'') dto_example world_empty) =
       Inl (CollaboratorError ''broker down'')
   \<and> store (snd (createOrder (env_fault 2 ''broker down'') dto_example world_empty)) ''order-i'' =
       Some (persisted (env_fault 2 ''broker down'') dto_example world_empty)
   \<and> fst (createOrder (env_fault 3 ''queue down'') dto_example world_empty) =
       Inl (CollaboratorError ''queue down'')
   \<and> store (snd (createOrder (env_fault 3 ''queue down'') dto_example world_empty)) ''order-i'' =
       Some (persisted (env_fault 3 ''queue down'') dto_example world_empty)"
proof -
  have t: "trace world_empty = []"
    by (simp add: world_empty_def)
  have f0: "fault (env_fault 0 ''store down'') (length (trace world_empty)) = Some ''store down''"
    by (simp add: env_fault_def t)
  have f2: "fault (env_fault 2 ''broker down'') (length (trace world_empty)) = None"
    by (simp add: env_fault_def t)
  have f3: "fault (env_fault 3 ''queue down'') (length (trace world_empty)) = None"
    by (simp add: env_fault_def t)
  have r2: "fst (createOrder (env_fault 2 ''broker down'') dto_example world_empty) =
       Inl (CollaboratorError ''broker down'')"
    by (simp add: createOrder_def bindE_snd repo_save_new publishOrderCreated_apply Let_def
        env_fault_def t)
  have r3: "fst (createOrder (env_fault 3 ''queue down'') dto_example world_empty) =
       Inl (CollaboratorError ''queue down'')"
    by (simp add: createOrder_def bindE_snd repo_save_new publishOrderCreated_apply Let_def
        queue_add_apply env_fault_def t)
  have u2: "uuid (env_fault 2 ''broker down'') (length (trace world_empty)) = ''order-i''"
    by (simp add: env_fault_def env_ok_def t)
  have u3: "uuid (env_fault 3 ''queue down'') (length (trace world_empty)) = ''order-i''"
    by (simp add: env_fault_def env_ok_def t)
  from createOrder_persistence_gate [of "env_fault 0 ''store down''" world_empty dto_example]
    createOrder_persistence_gate [of "env_fault 2 ''broker down''" world_empty dto_example]
    createOrder_persistence_gate [of "env_fault 3 ''queue down''" world_empty dto_example]
    f0 f2 f3 r2 r3 u2 u3 t
  show ?thesis by simp
qed

section \<open>The order a call loads\<close>

lemma findOne_store: "store (snd (findOne env i w)) = store w"
  by (simp add: findOne_def bindE_snd cache_get_def repo_findOne_def cache_set_def
      collaborator_apply returnE_apply throwE_apply Let_def
      split: option.splits cache_value.splits)

lemma findOne_miss_loaded:
  assumes "fst (findOne env i w) = Inr order" and "map_of (cache w) (''order:'' @ i) = None"
  shows "store w i = Some order"
  using assms
  by (simp add: findOne_def bindE_snd cache_get_def repo_findOne_def cache_set_def
      collaborator_apply returnE_apply throwE_apply Let_def
      split: option.splits sum.splits)

section \<open>The order of the side effects of creating an order\<close>

text \<open>
  C3, as the specification states it, fails: the cache is invalidated last, not first.
  With a cached page of the user's listing, the calls after the save are the two
  emits, the enqueueing, and only then the listing of the keys and the deletion.
\<close>

theorem createOrder_spec_order_counterexample:
  "fst (createOrder env_ok dto_example world_listing)
     = Inr (persisted env_ok dto_example world_listing)
   \<and> drop 3 (trace (snd (createOrder env_ok dto_example world_listing))) =
       [QueueAdd ''process-order'' \<lparr>orderId_job = ''order-i'', userId_job = ''user-123''\<rparr>,
        CacheKeys ''user-orders:user-123:*'', CacheDel ''user-orders:user-123:1:10'']
   \<and> \<not> spec_createOrder_effect_order (trace (snd (createOrder env_ok dto_example world_listing)))"
proof -
  have n: "\<forall>n. fault env_ok n = None"
    by (simp add: env_ok_def)
  have r: "fst (createOrder env_ok dto_example world_listing)
             = Inr (persisted env_ok dto_example world_listing)"
    by (rule createOrder_ok [OF n])
  have t: "trace (snd (createOrder env_ok dto_example world_listing)) =
     [RepoSave (newOrder env_ok dto_example),
      KafkaEmit ''order.created'' (ORDER_CREATED 5 ''order-i'' ''user-123'' (Number (99999 / 100)) PENDING 1),
      RabbitEmit ''order_created'' (ORDER_CREATED 5 ''order-i'' ''user-123'' (Number (99999 / 100)) PENDING 1),
      QueueAdd ''process-order'' \<lparr>orderId_job = ''order-i'', userId_job = ''user-123''\<rparr>,
      CacheKeys ''user-orders:user-123:*'', CacheDel ''user-orders:user-123:1:10'']"
    using createOrder_trace [OF r]
    by (simp add: persisted_def newOrder_def number_simps dto_example_def laptop_def world_listing_def
        env_ok_def)
  show ?thesis
    by (simp add: r t spec_createOrder_effect_order_def all_before_def)
qed

text \<open>
  C3, amended. For every successful \<^verbatim>\<open>createOrder\<close> the calls to collaborators are, in
  this order: the save; \<^verbatim>\<open>publishOrderCreated\<close> (the emit to Kafka, then the emit to
  RabbitMQ); the enqueueing of the job \<^verbatim>\<open>process-order\<close> with the id of the order and
  of its user; and last the invalidation of the user's cached listings (the listing of
  the keys \<^verbatim>\<open>user-orders:<userId>:*\<close> and the deletion of each, when the cache can
  list its keys, and nothing otherwise).
\<close>

theorem createOrder_side_effect_order:
  assumes "fst (createOrder env dto w) = Inr order"
  shows "trace (snd (createOrder env dto w)) =
     trace w @
     [RepoSave (newOrder env dto),
      KafkaEmit ''order.created''
        (ORDER_CREATED (clock w) (oid order) (userId order) (totalAmount order) PENDING
           (length (items order))),
      RabbitEmit ''order_created''
        (ORDER_CREATED (clock w) (oid order) (userId order) (totalAmount order) PENDING
           (length (items order))),
      QueueAdd ''process-order'' \<lparr>orderId_job = oid order, userId_job = userId order\<rparr>]
     @ (if keys_supported env
        then CacheKeys (''user-orders:'' @ userId order @ '':*'')
               # map CacheDel (filter (prefix (''user-orders:'' @ userId order @ '':''))
                                 (map fst (cache w)))
        else [])"
  by (rule createOrder_trace [OF assms])

theorem createOrder_side_effect_order_witness:
  "fst (createOrder env_ok dto_example world_listing)
     = Inr (persisted env_ok dto_example world_listing)
   \<and> trace (snd (createOrder env_ok dto_example world_listing)) =
     [RepoSave (newOrder env_ok dto_example),
      KafkaEmit ''order.created'' (ORDER_CREATED 5 ''order-i'' ''user-123'' (Number (99999 / 100)) PENDING 1),
      RabbitEmit ''order_created'' (ORDER_CREATED 5 ''order-i'' ''user-123'' (Number (99999 / 100)) PENDING 1),
      QueueAdd ''process-order'' \<lparr>orderId_job = ''order-i'', userId_job = ''user-123''\<rparr>,
      CacheKeys ''user-orders:user-123:*'', CacheDel ''user-orders:user-123:1:10'']"
proof -
  have n: "\<forall>n. fault env_ok n = None"
    by (simp add: env_ok_def)
  have r: "fst (createOrder env_ok dto_example world_listing)
             = Inr (persisted env_ok dto_example world_listing)"
    by (rule createOrder_ok [OF n])
  from createOrder_side_effect_order [OF r] r show ?thesis
    by (simp add: persisted_def newOrder_def number_simps dto_example_def laptop_def world_listing_def
        env_ok_def)
qed


section \<open>Failures of the brokers\<close>

lemma publishOrderStatusChanged_apply:
  "publishOrderStatusChanged env order w =
     (let ev = ORDER_STATUS_CHANGED (clock w) (oid order) (userId order) (status order)
                 (totalAmount order);
          w' = w\<lparr>trace := trace w @ [KafkaEmit ''order.status.changed'' ev,
                    RabbitEmit ''order_notification''
                      (STATUS_UPDATE (oid order) (userId order) (status order))]\<rparr>
      in if status order = SHIPPED \<or> status order = DELIVERED
         then (case fault env (Suc (length (trace w))) of
                 Some m \<Rightarrow> (Inl (CollaboratorError m), w')
               | None \<Rightarrow> (Inr (), w'))
         else (Inr (), w\<lparr>trace := trace w @ [KafkaEmit ''order.status.changed'' ev]\<rparr>))"
  by (cases "status order")
     (simp_all add: publishOrderStatusChanged_def io_simps kafka_emit_apply rabbit_emit_apply
        split: option.splits)

lemma publishOrderCancelled_apply:
  "publishOrderCancelled env order w =
     (let ev = ORDER_CANCELLED (clock w) (oid order) (userId order) (cancelReason order)
                 (totalAmount order)
      in (Inr (), w\<lparr>trace := trace w @ [KafkaEmit ''order.cancelled'' ev,
                                         RabbitEmit ''order_cancelled'' ev]\<rparr>))"
  by (simp add: publishOrderCancelled_def io_simps kafka_emit_apply rabbit_emit_apply
      split: option.splits)

text \<open>
  C6, as the specification states it, fails for the emit to Kafka: the call is not
  awaited, so its failure is not raised. With the delivery to Kafka failing (the call of
  index 0), \<^verbatim>\<open>publishOrderCreated\<close> and \<^verbatim>\<open>publishOrderStatusChanged\<close> go on to the
  emit to RabbitMQ and return normally.
\<close>

theorem kafka_failure_not_propagated_counterexample:
  "fault (env_fault 0 ''kafka down'') (length (trace world_empty)) = Some ''kafka down''
   \<and> publishOrderCreated (env_fault 0 ''kafka down'') (order_example PENDING) world_empty =
       (Inr (),
        world_empty\<lparr>trace :=
          [KafkaEmit ''order.created''
             (ORDER_CREATED 5 ''order-123'' ''user-123'' (Number (99999 / 100)) PENDING 1),
           RabbitEmit ''order_created''
             (ORDER_CREATED 5 ''order-123'' ''user-123'' (Number (99999 / 100)) PENDING 1)]\<rparr>)
   \<and> publishOrderStatusChanged (env_fault 0 ''kafka down'') (order_example SHIPPED) world_empty =
       (Inr (),
        world_empty\<lparr>trace :=
          [KafkaEmit ''order.status.changed''
             (ORDER_STATUS_CHANGED 5 ''order-123'' ''user-123'' SHIPPED (Number (99999 / 100))),
           RabbitEmit ''order_notification''
             (STATUS_UPDATE ''order-123'' ''user-123'' SHIPPED)]\<rparr>)"
  by (simp add: publishOrderCreated_apply publishOrderStatusChanged_apply Let_def
      env_fault_def env_ok_def world_empty_def order_example_def)

text \<open>
  C6, amended. \<^verbatim>\<open>publishOrderCancelled\<close> always returns normally, whichever delivery
  fails. \<^verbatim>\<open>publishOrderCreated\<close> emits to Kafka and then to RabbitMQ, and raises
  exactly the failure of the emit to RabbitMQ, which it awaits.
  \<^verbatim>\<open>publishOrderStatusChanged\<close> emits to Kafka; when the status is \<^verbatim>\<open>SHIPPED\<close> or
  \<^verbatim>\<open>DELIVERED\<close> it then emits to RabbitMQ and raises exactly the failure of that
  emit, and for any other status it returns normally. A failure of the emit to Kafka
  (the call of index \<open>length (trace w)\<close>) is raised by none of the three.
\<close>

theorem publisher_failure_propagation:
  "fst (publishOrderCancelled env order w) = Inr ()
   \<and> trace (snd (publishOrderCancelled env order w)) =
       trace w @
       [KafkaEmit ''order.cancelled''
          (ORDER_CANCELLED (clock w) (oid order) (userId order) (cancelReason order)
             (totalAmount order)),
        RabbitEmit ''order_cancelled''
          (ORDER_CANCELLED (clock w) (oid order) (userId order) (cancelReason order)
             (totalAmount order))]
   \<and> fst (publishOrderCreated env order w) =
       (case fault env (Suc (length (trace w))) of
          Some m \<Rightarrow> Inl (CollaboratorError m)
        | None \<Rightarrow> Inr ())
   \<and> trace (snd (publishOrderCreated env order w)) =
       trace w @
       [KafkaEmit ''order.created''
          (ORDER_CREATED (clock w) (oid order) (userId order) (totalAmount order)
             (status order) (length (items order))),
        RabbitEmit ''order_created''
          (ORDER_CREATED (clock w) (oid order) (userId order) (totalAmount order)
             (status order) (length (items order)))]
   \<and> fst (publishOrderStatusChanged env order w) =
       (if status order = SHIPPED \<or> status order = DELIVERED
        then (case fault env (Suc (length (trace w))) of
                Some m \<Rightarrow> Inl (CollaboratorError m)
              | None \<Rightarrow> Inr ())
        else Inr ())
   \<and> trace (snd (publishOrderStatusChanged env order w)) =
       trace w @
       KafkaEmit ''order.status.changed''
         (ORDER_STATUS_CHANGED (clock w) (oid order) (userId order) (status order)
            (totalAmount order))
       # (if status order = SHIPPED \<or> status order = DELIVERED
          then [RabbitEmit ''order_notification''
                  (STATUS_UPDATE (oid order) (userId order) (status order))]
          else [])"
  by (simp add: publishOrderCancelled_apply publishOrderCreated_apply
      publishOrderStatusChanged_apply Let_def split: option.splits)

theorem publisher_failure_propagation_witness:
  "fst (publishOrderCancelled (env_fault 1 ''rabbit down'') (order_example SHIPPED) world_empty)
     = Inr ()
   \<and> fst (publishOrderCreated (env_fault 1 ''rabbit down'') (order_example SHIPPED) world_empty)
       = Inl (CollaboratorError ''rabbit down'')
   \<and> fst (publishOrderStatusChanged (env_fault 1 ''rabbit down'') (order_example SHIPPED)
            world_empty)
       = Inl (CollaboratorError ''rabbit down'')
   \<and> fst (publishOrderStatusChanged (env_fault 1 ''rabbit down'') (order_example CONFIRMED)
            world_empty)
       = Inr ()
   \<and> fst (publishOrderCreated (env_fault 0 ''kafka down'') (order_example SHIPPED) world_empty)
       = Inr ()
   \<and> fst (publishOrderStatusChanged (env_fault 0 ''kafka down'') (order_example SHIPPED)
            world_empty)
       = Inr ()"
proof -
  have t: "length (trace world_empty) = 0"
    by (simp add: world_empty_def)
  have f: "fault (env_fault 1 ''rabbit down'') (Suc (length (trace world_empty)))
             = Some ''rabbit down''"
    "fault (env_fault 0 ''kafka down'') (Suc (length (trace world_empty))) = None"
    by (simp_all add: env_fault_def t)
  have s: "status (order_example SHIPPED) = SHIPPED" "status (order_example CONFIRMED) = CONFIRMED"
    by (simp_all add: order_example_def)
  note shipped = publisher_failure_propagation [of "env_fault 1 ''rabbit down''"
      "order_example SHIPPED" world_empty, unfolded f s]
  note confirmed = publisher_failure_propagation [of "env_fault 1 ''rabbit down''"
      "order_example CONFIRMED" world_empty, unfolded f s]
  note kafka = publisher_failure_propagation [of "env_fault 0 ''kafka down''"
      "order_example SHIPPED" world_empty, unfolded f s]
  from shipped confirmed kafka show ?thesis
    by simp
qed


section \<open>Reading an order through the cache\<close>

lemma cache_get_apply:
  "cache_get env key w =
     (case fault env (length (trace w)) of
        Some m \<Rightarrow> (Inl (CollaboratorError m), w\<lparr>trace := trace w @ [CacheGet key]\<rparr>)
      | None \<Rightarrow> (Inr (map_option cached (map_of (cache w) key)),
                 w\<lparr>trace := trace w @ [CacheGet key]\<rparr>))"
  by (simp add: cache_get_def io_simps split: option.splits)

lemma repo_findOne_apply:
  "repo_findOne env i w =
     (case fault env (length (trace w)) of
        Some m \<Rightarrow> (Inl (CollaboratorError m), w\<lparr>trace := trace w @ [RepoFindOne i]\<rparr>)
      | None \<Rightarrow> (Inr (store w i), w\<lparr>trace := trace w @ [RepoFindOne i]\<rparr>))"
  by (simp add: repo_findOne_def io_simps split: option.splits)

lemma cache_set_apply:
  "cache_set env key v t w =
     (case fault env (length (trace w)) of
        Some m \<Rightarrow> (Inl (CollaboratorError m), w\<lparr>trace := trace w @ [CacheSet key v t]\<rparr>)
      | None \<Rightarrow> (Inr (), w\<lparr>trace := trace w @ [CacheSet key v t],
                            cache := AList.update key \<lparr>cached = v, ttl = t\<rparr> (cache w)\<rparr>))"
  by (simp add: cache_set_def io_simps split: option.splits)

lemma findOne_hit:
  assumes "map_option cached (map_of (cache w) (''order:'' @ i)) = Some (CachedOrder order)"
    and "fault env (length (trace w)) = None"
  shows "findOne env i w = (Inr order, w\<lparr>trace := trace w @ [CacheGet (''order:'' @ i)]\<rparr>)"
  using assms by (auto simp: findOne_def bindE_apply cache_get_apply returnE_apply Let_def)

lemma findOne_miss_absent:
  assumes "map_of (cache w) (''order:'' @ i) = None" and "store w i = None"
    and "fault env (length (trace w)) = None" and "fault env (Suc (length (trace w))) = None"
  shows "findOne env i w =
           (Inl (NotFoundException (''Order with ID '' @ i @ '' not found'')),
            w\<lparr>trace := trace w @ [CacheGet (''order:'' @ i), RepoFindOne i]\<rparr>)"
  using assms
  by (simp add: findOne_def bindE_apply cache_get_apply repo_findOne_apply throwE_apply Let_def)

lemma findOne_miss_present:
  assumes "map_of (cache w) (''order:'' @ i) = None" and "store w i = Some order"
    and "fault env (length (trace w)) = None" and "fault env (Suc (length (trace w))) = None"
    and "fault env (Suc (Suc (length (trace w)))) = None"
  shows "findOne env i w =
           (Inr order,
            w\<lparr>trace := trace w @ [CacheGet (''order:'' @ i), RepoFindOne i,
                                   CacheSet (''order:'' @ i) (CachedOrder order) 300],
              cache := AList.update (''order:'' @ i) \<lparr>cached = CachedOrder order, ttl = 300\<rparr>
                         (cache w)\<rparr>)"
  using assms
  by (simp add: findOne_def bindE_apply cache_get_apply repo_findOne_apply cache_set_apply
      returnE_apply Let_def)

lemma findOne_warm:
  assumes "fst (findOne env i w) = Inr order"
  shows "map_option cached (map_of (cache (snd (findOne env i w))) (''order:'' @ i))
           = Some (CachedOrder order)"
  using assms
  by (auto simp: findOne_def bindE_snd cache_get_apply repo_findOne_apply cache_set_apply
      returnE_apply throwE_apply Let_def update_conv'
      split: option.splits cache_value.splits)

text \<open>
  C8. Once \<^verbatim>\<open>findOne\<close> has returned an order, a second call made next returns the
  same order and calls the cache only (when the cache answers). A hit returns the
  cached order with no call to the store. On a miss, an id absent from the store gives
  the \<^verbatim>\<open>NotFoundException\<close> and leaves the cache as it was; an id in the store gives
  the stored order, which is put in the cache under \<^verbatim>\<open>order:<id>\<close> with a time to live
  of 300.
\<close>

theorem findOne_cache_aside:
  "(\<forall>order. fst (findOne env i w) = Inr order
        \<and> fault env (length (trace (snd (findOne env i w)))) = None \<longrightarrow>
      findOne env i (snd (findOne env i w)) =
        (Inr order,
         (snd (findOne env i w))\<lparr>trace := trace (snd (findOne env i w))
                                             @ [CacheGet (''order:'' @ i)]\<rparr>))
   \<and> (\<forall>order. map_option cached (map_of (cache w) (''order:'' @ i)) = Some (CachedOrder order)
        \<and> fault env (length (trace w)) = None \<longrightarrow>
      findOne env i w = (Inr order, w\<lparr>trace := trace w @ [CacheGet (''order:'' @ i)]\<rparr>))
   \<and> (map_of (cache w) (''order:'' @ i) = None \<and> store w i = None
        \<and> fault env (length (trace w)) = None \<and> fault env (Suc (length (trace w))) = None \<longrightarrow>
      fst (findOne env i w) = Inl (NotFoundException (''Order with ID '' @ i @ '' not found''))
      \<and> cache (snd (findOne env i w)) = cache w)
   \<and> (\<forall>order. map_of (cache w) (''order:'' @ i) = None \<and> store w i = Some order
        \<and> fault env (length (trace w)) = None \<and> fault env (Suc (length (trace w))) = None
        \<and> fault env (Suc (Suc (length (trace w)))) = None \<longrightarrow>
      findOne env i w =
        (Inr order,
         w\<lparr>trace := trace w @ [CacheGet (''order:'' @ i), RepoFindOne i,
                                CacheSet (''order:'' @ i) (CachedOrder order) 300],
           cache := AList.update (''order:'' @ i) \<lparr>cached = CachedOrder order, ttl = 300\<rparr>
                      (cache w)\<rparr>))"
proof -
  have a: "findOne env i (snd (findOne env i w)) =
        (Inr order,
         (snd (findOne env i w))\<lparr>trace := trace (snd (findOne env i w))
                                             @ [CacheGet (''order:'' @ i)]\<rparr>)"
    if "fst (findOne env i w) = Inr order"
      and "fault env (length (trace (snd (findOne env i w)))) = None" for order
    using findOne_hit [OF findOne_warm [OF that(1)] that(2)] .
  have c: "fst (findOne env i w) = Inl (NotFoundException (''Order with ID '' @ i @ '' not found''))
      \<and> cache (snd (findOne env i w)) = cache w"
    if "map_of (cache w) (''order:'' @ i) = None" and "store w i = None"
      and "fault env (length (trace w)) = None" and "fault env (Suc (length (trace w))) = None"
    using findOne_miss_absent [OF that] by simp
  from a c findOne_hit [of w i _ env] findOne_miss_present [of w i _ env]
  show ?thesis by blast
qed

theorem findOne_cache_aside_witness:
  "findOne env_ok ''order-123'' (world_example PENDING) =
     (Inr (order_example PENDING),
      (world_example PENDING)
        \<lparr>trace := [CacheGet ''order:order-123'', RepoFindOne ''order-123'',
                   CacheSet ''order:order-123'' (CachedOrder (order_example PENDING)) 300],
         cache := [(''order:order-123'', \<lparr>cached = CachedOrder (order_example PENDING), ttl = 300\<rparr>)]\<rparr>)
   \<and> fst (findOne env_ok ''order-123'' (snd (findOne env_ok ''order-123'' (world_example PENDING))))
       = Inr (order_example PENDING)
   \<and> trace (snd (findOne env_ok ''order-123''
                (snd (findOne env_ok ''order-123'' (world_example PENDING))))) =
       [CacheGet ''order:order-123'', RepoFindOne ''order-123'',
        CacheSet ''order:order-123'' (CachedOrder (order_example PENDING)) 300,
        CacheGet ''order:order-123'']
   \<and> fst (findOne env_ok ''invalid-id'' (world_example PENDING))
       = Inl (NotFoundException ''Order with ID invalid-id not found'')"
proof -
  have n: "\<And>k. fault env_ok k = None"
    by (simp add: env_ok_def)
  have c: "map_of (cache (world_example PENDING)) (''order:'' @ ''order-123'') = None"
          "map_of (cache (world_example PENDING)) (''order:'' @ ''invalid-id'') = None"
    by (simp_all add: world_example_def)
  have s: "store (world_example PENDING) ''order-123'' = Some (order_example PENDING)"
          "store (world_example PENDING) ''invalid-id'' = None"
    by (simp_all add: world_example_def)
  have t: "trace (world_example PENDING) = []" "cache (world_example PENDING) = []"
    by (simp_all add: world_example_def)
  note th1 = findOne_cache_aside [of env_ok "''order-123''" "world_example PENDING"]
  note th2 = findOne_cache_aside [of env_ok "''invalid-id''" "world_example PENDING"]
  have first: "findOne env_ok ''order-123'' (world_example PENDING) =
     (Inr (order_example PENDING),
      (world_example PENDING)
        \<lparr>trace := [CacheGet ''order:order-123'', RepoFindOne ''order-123'',
                   CacheSet ''order:order-123'' (CachedOrder (order_example PENDING)) 300],
         cache := [(''order:order-123'', \<lparr>cached = CachedOrder (order_example PENDING), ttl = 300\<rparr>)]\<rparr>)"
    using th1 c s n by (simp add: t)
  have second: "findOne env_ok ''order-123'' (snd (findOne env_ok ''order-123'' (world_example PENDING)))
      = (Inr (order_example PENDING),
         (snd (findOne env_ok ''order-123'' (world_example PENDING)))
           \<lparr>trace := trace (snd (findOne env_ok ''order-123'' (world_example PENDING)))
                     @ [CacheGet (''order:'' @ ''order-123'')]\<rparr>)"
    using th1 first n by simp
  have third: "fst (findOne env_ok ''invalid-id'' (world_example PENDING))
       = Inl (NotFoundException ''Order with ID invalid-id not found'')"
    using th2 c s n by simp
  from first second third show ?thesis by simp
qed

section \<open>Triples, raised errors and preserved observations\<close>

lemma tripleI:
  assumes "\<And>w e w'. P w \<Longrightarrow> m w = (Inl e, w') \<Longrightarrow> E e w'"
    and "\<And>w x w'. P w \<Longrightarrow> m w = (Inr x, w') \<Longrightarrow> Q x w'"
  shows "triple P m Q E"
  using assms by (auto simp: triple_def split: prod.splits sum.splits)

lemma triple_Inl: "triple P m Q E \<Longrightarrow> P w \<Longrightarrow> m w = (Inl e, w') \<Longrightarrow> E e w'"
  by (auto simp: triple_def split: prod.splits sum.splits)

lemma triple_Inr: "triple P m Q E \<Longrightarrow> P w \<Longrightarrow> m w = (Inr x, w') \<Longrightarrow> Q x w'"
  by (auto simp: triple_def split: prod.splits sum.splits)

lemma triple_bind:
  assumes "triple P m Q E" and "\<And>x. triple (Q x) (f x) R E"
  shows "triple P (bindE m f) R E"
proof (rule tripleI)
  fix w e w' assume p: "P w" and r: "bindE m f w = (Inl e, w')"
  show "E e w'"
  proof (cases "m w")
    case (Pair a w1)
    show ?thesis
    proof (cases a)
      case (Inl e1)
      with Pair r have "e1 = e" "w1 = w'" by (simp_all add: bindE_apply)
      with Pair Inl triple_Inl [OF assms(1) p] show ?thesis by simp
    next
      case (Inr x)
      with Pair r have "f x w1 = (Inl e, w')" by (simp add: bindE_apply)
      moreover have "Q x w1" using triple_Inr [OF assms(1) p] Pair Inr by simp
      ultimately show ?thesis using triple_Inl [OF assms(2)] by blast
    qed
  qed
next
  fix w y w' assume p: "P w" and r: "bindE m f w = (Inr y, w')"
  show "R y w'"
  proof (cases "m w")
    case (Pair a w1)
    show ?thesis
    proof (cases a)
      case (Inl e1)
      with Pair r show ?thesis by (simp add: bindE_apply)
    next
      case (Inr x)
      with Pair r have "f x w1 = (Inr y, w')" by (simp add: bindE_apply)
      moreover have "Q x w1" using triple_Inr [OF assms(1) p] Pair Inr by simp
      ultimately show ?thesis using triple_Inr [OF assms(2)] by blast
    qed
  qed
qed

lemma triple_catch:
  assumes "triple P m Q E1" and "\<And>e. triple (E1 e) (h e) Q E"
  shows "triple P (catchE m h) Q E"
proof (rule tripleI)
  fix w e w' assume p: "P w" and r: "catchE m h w = (Inl e, w')"
  show "E e w'"
  proof (cases "m w")
    case (Pair a w1)
    show ?thesis
    proof (cases a)
      case (Inl e1)
      with Pair r have "h e1 w1 = (Inl e, w')" by (simp add: catchE_apply)
      moreover have "E1 e1 w1" using triple_Inl [OF assms(1) p] Pair Inl by simp
      ultimately show ?thesis using triple_Inl [OF assms(2)] by blast
    next
      case (Inr x)
      with Pair r show ?thesis by (simp add: catchE_apply)
    qed
  qed
next
  fix w y w' assume p: "P w" and r: "catchE m h w = (Inr y, w')"
  show "Q y w'"
  proof (cases "m w")
    case (Pair a w1)
    show ?thesis
    proof (cases a)
      case (Inl e1)
      with Pair r have "h e1 w1 = (Inr y, w')" by (simp add: catchE_apply)
      moreover have "E1 e1 w1" using triple_Inl [OF assms(1) p] Pair Inl by simp
      ultimately show ?thesis using triple_Inr [OF assms(2)] by blast
    next
      case (Inr x)
      with Pair r have "x = y" "w1 = w'" by (simp_all add: catchE_apply)
      with Pair Inr triple_Inr [OF assms(1) p] show ?thesis by simp
    qed
  qed
qed

lemma triple_return: "(\<And>w. P w \<Longrightarrow> Q x w) \<Longrightarrow> triple P (returnE x) Q E"
  by (simp add: triple_def returnE_apply)

lemma triple_throw: "(\<And>w. P w \<Longrightarrow> E e w) \<Longrightarrow> triple P (throwE e) Q E"
  by (simp add: triple_def throwE_apply)

lemma triple_now: "(\<And>w. P w \<Longrightarrow> Q (clock w) w) \<Longrightarrow> triple P now Q E"
  by (simp add: triple_def now_apply)


lemma triple_collaborator:
  assumes "\<And>w. P w \<Longrightarrow> fault env (length (trace w)) = None \<Longrightarrow>
             Q (length (trace w)) (w\<lparr>trace := trace w @ [c]\<rparr>)"
    and "\<And>w m. P w \<Longrightarrow> fault env (length (trace w)) = Some m \<Longrightarrow>
             E (CollaboratorError m) (w\<lparr>trace := trace w @ [c]\<rparr>)"
  shows "triple P (collaborator env c) Q E"
  using assms by (simp add: triple_def collaborator_apply split: option.splits)

lemma triple_if:
  assumes "b \<Longrightarrow> triple P m Q E" and "\<not> b \<Longrightarrow> triple P n Q E"
  shows "triple P (if b then m else n) Q E"
  using assms by simp

lemma raisesD: "raises K m \<Longrightarrow> fst (m w) = Inl e \<Longrightarrow> K e"
  by (auto simp: raises_def)

lemma raises_bind:
  assumes "raises K m" and "\<And>x. raises K (f x)"
  shows "raises K (bindE m f)"
  using assms by (auto simp: raises_def bindE_snd split: sum.splits)

lemma raises_return: "raises K (returnE x)"
  by (simp add: raises_def returnE_apply)

lemma raises_throw: "K e \<Longrightarrow> raises K (throwE e)"
  by (simp add: raises_def throwE_apply)

lemma raises_now: "raises K now"
  by (simp add: raises_def now_apply)

lemma raises_collaborator: "(\<And>m. K (CollaboratorError m)) \<Longrightarrow> raises K (collaborator env c)"
  by (auto simp: raises_def collaborator_apply split: option.splits)

lemma raises_prims:
  assumes "\<And>m. K (CollaboratorError m)"
  shows "raises K (repo_save env order)" "raises K (repo_findOne env i)"
    "raises K (cache_get env key)" "raises K (cache_set env key v t)"
    "raises K (cache_del env key)" "raises K (cache_keys env p)"
    "raises K (kafka_emit env topic ev)" "raises K (rabbit_emit env pat ev)"
    "raises K (queue_add env name d)" "raises K (job_progress env n)"
    "raises K (checkInventory env i)" "raises K (reserveInventory env i)"
    "raises K (initiatePayment env i)"
  unfolding prim_defs job_progress_def checkInventory_def reserveInventory_def
    initiatePayment_def
  by (simp_all add: raises_def bindE_snd collaborator_apply returnE_apply assms Let_def
      split: option.splits sum.splits)

lemma raises_invalidate:
  assumes "\<And>m. K (CollaboratorError m)"
  shows "raises K (invalidateUserOrdersCache env u)"
  using assms invalidate_error [of env u] by (auto simp: raises_def)

lemma raises_findOne:
  assumes "\<And>m. K (CollaboratorError m)" and "\<And>m. K (TypeError m)"
    and "\<And>m. K (NotFoundException m)"
  shows "raises K (findOne env i)"
  unfolding findOne_def Let_def
  by (intro raises_bind raises_prims assms)
     (auto intro!: raises_bind raises_prims raises_return raises_throw assms
        split: option.splits cache_value.splits)

lemma raises_publishOrderStatusChanged:
  assumes "\<And>m. K (CollaboratorError m)"
  shows "raises K (publishOrderStatusChanged env order)"
  using assms
  by (auto simp: raises_def publishOrderStatusChanged_apply Let_def split: option.splits if_splits)

lemma raises_validateStatusTransition:
  assumes "K (BadRequestException (''Invalid status transition from '' @ status_string c
                    @ '' to '' @ status_string n))"
  shows "raises K (validateStatusTransition c n)"
  using assms
  by (simp add: raises_def validateStatusTransition_def throwE_apply returnE_apply)

lemma raises_updateStatus:
  assumes "\<And>m. K (CollaboratorError m)" and "\<And>m. K (TypeError m)"
    and "\<And>m. K (NotFoundException m)"
    and "\<And>s. K (BadRequestException (''Invalid status transition from '' @ status_string s
                    @ '' to '' @ status_string (status_upd dto)))"
  shows "raises K (updateStatus env i dto)"
  unfolding updateStatus_def Let_def
  by (intro raises_bind raises_findOne raises_now raises_prims raises_return
        raises_publishOrderStatusChanged raises_invalidate raises_validateStatusTransition
        assms)

lemma raises_processOrderSteps: "raises no_cancel_rejection (processOrderSteps env i)"
  unfolding processOrderSteps_def
  by (intro raises_bind raises_prims raises_return raises_updateStatus)
     (auto intro!: raises_bind raises_findOne raises_return raises_throw
        simp: validateOrder_def)

lemma cancel_message_differs:
  "a @ '' to cancelled'' \<noteq> b @ '' to confirmed''"
proof
  assume "a @ '' to cancelled'' = b @ '' to confirmed''"
  then have "rev (a @ '' to cancelled'') = rev (b @ '' to confirmed'')"
    by (rule arg_cong)
  then show False by simp
qed

lemma updateStatus_invalid:
  assumes "findOne env i w = (Inr order, w1)"
    and "status_upd dto \<notin> spec_allowedNext (status order)"
  shows "updateStatus env i dto w =
      (Inl (BadRequestException (''Invalid status transition from ''
              @ status_string (status order) @ '' to '' @ status_string (status_upd dto))), w1)"
  using assms
  by (simp add: updateStatus_def bindE_apply validateStatusTransition_def
      validTransitions_allowedNext throwE_apply)

lemma keepsD: "keeps g m \<Longrightarrow> g (snd (m w)) = g w"
  by (simp add: keeps_def)

lemma keeps_bind:
  assumes "keeps g m" and "\<And>x. keeps g (f x)"
  shows "keeps g (bindE m f)"
  using assms by (simp add: keeps_def bindE_snd split: sum.splits)

lemma keeps_return: "keeps g (returnE x)"
  by (simp add: keeps_def returnE_apply)

lemma keeps_throw: "keeps g (throwE e)"
  by (simp add: keeps_def throwE_apply)

lemma keeps_now: "keeps g now"
  by (simp add: keeps_def now_apply)

lemma keeps_steps_prims:
  "keeps steps (repo_save env order)" "keeps steps (repo_findOne env i)"
  "keeps steps (cache_get env key)" "keeps steps (cache_set env key v t)"
  "keeps steps (cache_del env key)" "keeps steps (cache_keys env p)"
  "keeps steps (kafka_emit env topic ev)" "keeps steps (rabbit_emit env pat ev)"
  "keeps steps (queue_add env name d)"
  unfolding prim_defs
  by (simp_all add: keeps_def steps_def bindE_snd collaborator_apply returnE_apply Let_def
      split: option.splits sum.splits)

lemma keeps_store_prims:
  "keeps store (repo_findOne env i)"
  "keeps store (cache_get env key)" "keeps store (cache_set env key v t)"
  "keeps store (cache_del env key)" "keeps store (cache_keys env p)"
  "keeps store (kafka_emit env topic ev)" "keeps store (rabbit_emit env pat ev)"
  "keeps store (queue_add env name d)" "keeps store (job_progress env n)"
  "keeps store (checkInventory env i)" "keeps store (reserveInventory env i)"
  "keeps store (initiatePayment env i)"
  unfolding prim_defs job_progress_def checkInventory_def reserveInventory_def
    initiatePayment_def
  by (simp_all add: keeps_def bindE_snd collaborator_apply returnE_apply Let_def
      split: option.splits sum.splits)

lemma keeps_clock_prims:
  "keeps clock (repo_save env order)" "keeps clock (repo_findOne env i)"
  "keeps clock (cache_get env key)" "keeps clock (cache_set env key v t)"
  "keeps clock (cache_del env key)" "keeps clock (cache_keys env p)"
  "keeps clock (kafka_emit env topic ev)" "keeps clock (rabbit_emit env pat ev)"
  "keeps clock (queue_add env name d)" "keeps clock (job_progress env n)"
  "keeps clock (checkInventory env i)" "keeps clock (reserveInventory env i)"
  "keeps clock (initiatePayment env i)"
  unfolding prim_defs job_progress_def checkInventory_def reserveInventory_def
    initiatePayment_def
  by (simp_all add: keeps_def bindE_snd collaborator_apply returnE_apply Let_def
      split: option.splits sum.splits)

lemma filter_is_step_CacheDel: "filter is_step (map CacheDel ks) = []"
  by (induction ks) simp_all

lemma invalidate_clock: "clock (snd (invalidateUserOrdersCache env u w)) = clock w"
  by (simp add: invalidateUserOrdersCache_def io_simps cache_keys_def del_all_clock
      split: option.splits)

lemma keeps_invalidate:
  "keeps steps (invalidateUserOrdersCache env u)"
  "keeps store (invalidateUserOrdersCache env u)"
  "keeps clock (invalidateUserOrdersCache env u)"
  by (simp_all add: keeps_def steps_def invalidate_trace invalidate_store invalidate_clock
      filter_is_step_CacheDel split: option.splits)

lemma keeps_publishOrderStatusChanged:
  "keeps steps (publishOrderStatusChanged env order)"
  "keeps store (publishOrderStatusChanged env order)"
  "keeps clock (publishOrderStatusChanged env order)"
  by (simp_all add: keeps_def steps_def publishOrderStatusChanged_apply Let_def
      split: option.splits)

lemma keeps_findOne:
  "keeps steps (findOne env i)" "keeps store (findOne env i)" "keeps clock (findOne env i)"
  unfolding findOne_def Let_def
  by (auto intro!: keeps_bind keeps_steps_prims keeps_store_prims keeps_clock_prims
      keeps_return keeps_throw split: option.splits cache_value.splits)

lemma keeps_validate: "keeps g (validateStatusTransition c n)"
  by (simp add: keeps_def validateStatusTransition_def throwE_apply returnE_apply)

lemma keeps_updateStatus:
  "keeps steps (updateStatus env i dto)" "keeps clock (updateStatus env i dto)"
  unfolding updateStatus_def Let_def
  by (intro keeps_bind keeps_findOne keeps_validate keeps_now keeps_steps_prims
        keeps_clock_prims keeps_publishOrderStatusChanged keeps_invalidate keeps_return)+

lemma repo_save_apply:
  "repo_save env order w =
     (case fault env (length (trace w)) of
        Some m \<Rightarrow> (Inl (CollaboratorError m), w\<lparr>trace := trace w @ [RepoSave order]\<rparr>)
      | None \<Rightarrow>
          (let saved = (if oid order = []
                        then order\<lparr>oid := uuid env (length (trace w)), createdAt := clock w,
                               updatedAt := clock w\<rparr>
                        else order\<lparr>updatedAt := clock w\<rparr>)
           in (Inr saved, w\<lparr>trace := trace w @ [RepoSave order],
                            store := (store w)(oid saved \<mapsto> saved)\<rparr>)))"
  by (simp add: repo_save_def io_simps split: option.splits)

lemma store_snd_simps:
  "store (snd (publishOrderStatusChanged env u w)) = store w"
  "store (snd (cache_del env k w)) = store w"
  "store (snd (invalidateUserOrdersCache env uid w)) = store w"
  "store (snd (findOne env i w)) = store w"
  by (simp_all add: keepsD [OF keeps_publishOrderStatusChanged(2)]
      keepsD [OF keeps_store_prims(4)] invalidate_store findOne_store)

lemma updateStatus_Inr:
  assumes "fst (updateStatus env i dto w) = Inr c"
  shows "status c = status_upd dto
       \<and> (status_upd dto = CANCELLED \<longrightarrow>
            cancelReason c = Some (case cancelReason_upd dto of None \<Rightarrow> [] | Some r \<Rightarrow> r)
            \<and> cancelledAt c = Some (clock w))
       \<and> store (snd (updateStatus env i dto w)) (oid c) = Some c"
proof -
  obtain order w1 where f: "findOne env i w = (Inr order, w1)"
    using assms
    by (cases "findOne env i w") (auto simp: updateStatus_def bindE_apply split: sum.splits)
  have c1: "clock w1 = clock w"
    using keepsD [OF keeps_findOne(3), of env i w] f by simp
  have v: "status_upd dto \<in> spec_allowedNext (status order)"
  proof (rule ccontr)
    assume "status_upd dto \<notin> spec_allowedNext (status order)"
    from updateStatus_invalid [OF f this] assms show False by simp
  qed
  show ?thesis
    using assms f v c1
    by (auto simp: updateStatus_def bindE_snd validateStatusTransition_def
        validTransitions_allowedNext returnE_apply now_apply Let_def repo_save_apply
        store_snd_simps
        split: if_splits option.splits sum.splits)
qed

lemma step_call_simps:
  "steps (snd (job_progress env n w)) = steps w @ [JobProgress n]"
  "steps (snd (checkInventory env i w)) = steps w @ [CheckInventory i]"
  "steps (snd (reserveInventory env i w)) = steps w @ [ReserveInventory i]"
  "steps (snd (initiatePayment env i w)) = steps w @ [InitiatePayment i]"
  by (simp_all add: steps_def job_progress_def checkInventory_def reserveInventory_def
      initiatePayment_def bindE_snd collaborator_apply returnE_apply
      split: option.splits sum.splits)

lemma step_call_results:
  "fst (job_progress env n w) \<noteq> Inl (Error m)"
  "fst (checkInventory env i w) \<noteq> Inl (Error m)"
  "fst (reserveInventory env i w) \<noteq> Inl (Error m)"
  "fst (initiatePayment env i w) \<noteq> Inl (Error m)"
  "fst (checkInventory env i w) = Inr b \<Longrightarrow> b = inventoryAvailable env i"
  by (simp_all add: job_progress_def checkInventory_def reserveInventory_def
      initiatePayment_def bindE_snd collaborator_apply returnE_apply
      split: option.splits sum.splits)

lemma keeps_validateOrder: "keeps steps (validateOrder env i)"
  unfolding validateOrder_def
  by (auto intro!: keeps_bind keeps_findOne keeps_return keeps_throw)




lemma steps_simps:
  "steps (snd (validateOrder env i w)) = steps w"
  "steps (snd (updateStatus env i dto w)) = steps w"
  by (simp_all add: keepsD [OF keeps_validateOrder] keepsD [OF keeps_updateStatus(1)])



lemma triple_pre:
  assumes "\<And>w. P' w \<Longrightarrow> P w" and "triple P m Q E"
  shows "triple P' m Q E"
  using assms by (auto simp: triple_def)

lemma triple_pure:
  assumes "b \<Longrightarrow> triple P m Q E"
  shows "triple (\<lambda>w. b \<and> P w) m Q E"
  using assms by (auto simp: triple_def)





lemma triple_trivial: "triple P m (\<lambda>_ _. True) (\<lambda>_ _. True)"
  by (simp add: triple_def split: prod.splits sum.splits)

lemma triple_updateStatus_stored:
  "triple (\<lambda>_. True) (updateStatus env i dto)
     (\<lambda>c w. status c = status_upd dto \<and> store w (oid c) = Some c) (\<lambda>_ _. True)"
proof (rule tripleI)
  fix w c w' assume "updateStatus env i dto w = (Inr c, w')"
  then show "status c = status_upd dto \<and> store w' (oid c) = Some c"
    using updateStatus_Inr [of env i dto w c] by simp
qed simp

lemma processOrderSteps_confirms_triple:
  "triple (\<lambda>_. True) (processOrderSteps env i)
     (\<lambda>r w. r = \<lparr>success = True, orderId = i,
                   result_message = ''Order processed successfully''\<rparr>
            \<and> (\<exists>c. status c = CONFIRMED \<and> store w (oid c) = Some c))
     (\<lambda>_ _. True)"
  unfolding processOrderSteps_def
  apply (rule triple_bind, rule triple_trivial)
  apply (rule triple_bind, rule triple_trivial)
  apply (rule triple_bind, rule triple_trivial)
  apply (rule triple_bind, rule triple_trivial)
  apply (rule triple_bind, rule triple_trivial)
  apply (rule triple_bind, rule triple_trivial)
  apply (rule triple_bind, rule triple_trivial)
  apply (rule triple_bind, rule triple_trivial)
  apply (rule triple_bind, rule triple_trivial)
  apply (rule triple_bind, rule triple_trivial)
  apply (rule triple_bind)
   apply (rule triple_pre [OF _ triple_updateStatus_stored], simp)
  apply (rule triple_return)
  apply auto
  done

lemma processOrderSteps_Inr:
  assumes "fst (processOrderSteps env i w) = Inr r"
  shows "r = \<lparr>success = True, orderId = i, result_message = ''Order processed successfully''\<rparr>
       \<and> (\<exists>c. status c = CONFIRMED \<and> store (snd (processOrderSteps env i w)) (oid c) = Some c)"
proof (cases "processOrderSteps env i w")
  case (Pair a w')
  with assms have "processOrderSteps env i w = (Inr r, w')" by simp
  from triple_Inr [OF processOrderSteps_confirms_triple _ this] Pair show ?thesis by simp
qed



lemmas run_simps = io_simps prim_defs findOne_def updateStatus_def
  validateStatusTransition_def validTransitions_def publishOrderStatusChanged_def
  invalidateUserOrdersCache_def processOrderSteps_def validateOrder_def job_progress_def
  checkInventory_def reserveInventory_def initiatePayment_def handleOrderProcessing_def
  cancelDto_def env_ok_def

lemma noitems_steps_raise:
  "processOrderSteps env_ok ''order-9'' (world_noitems s) =
     (Inl (Error ''Order has no items''),
      (world_noitems s)
        \<lparr>trace := [JobProgress 20, CacheGet ''order:order-9'', RepoFindOne ''order-9'',
                   CacheSet ''order:order-9'' (CachedOrder (order_noitems s)) 300],
         cache := [(''order:order-9'', \<lparr>cached = CachedOrder (order_noitems s), ttl = 300\<rparr>)]\<rparr>)"
  by (simp add: run_simps world_noitems_def order_noitems_def)

section \<open>The cancellation fields\<close>

lemma wc_frame:
  "store w' = store w \<Longrightarrow> cache w' = cache w \<Longrightarrow> world_consistent w \<Longrightarrow> world_consistent w'"
  by (simp add: world_consistent_def)

lemma wc_keeps:
  assumes "keeps store m" and "keeps cache m"
  shows "triple world_consistent m (\<lambda>_. world_consistent) (\<lambda>_. world_consistent)"
proof (rule tripleI)
  fix w e w' assume "world_consistent w" and "m w = (Inl e, w')"
  then show "world_consistent w'"
    using keepsD [OF assms(1), of w] keepsD [OF assms(2), of w] by (auto intro: wc_frame)
next
  fix w x w' assume "world_consistent w" and "m w = (Inr x, w')"
  then show "world_consistent w'"
    using keepsD [OF assms(1), of w] keepsD [OF assms(2), of w] by (auto intro: wc_frame)
qed

lemma keeps_cache_prims:
  "keeps cache (repo_save env order)" "keeps cache (repo_findOne env i)"
  "keeps cache (cache_get env key)" "keeps cache (cache_keys env p)"
  "keeps cache (kafka_emit env topic ev)" "keeps cache (rabbit_emit env pat ev)"
  "keeps cache (queue_add env name d)" "keeps cache (job_progress env n)"
  "keeps cache (checkInventory env i)" "keeps cache (reserveInventory env i)"
  "keeps cache (initiatePayment env i)"
  unfolding prim_defs job_progress_def checkInventory_def reserveInventory_def
    initiatePayment_def
  by (simp_all add: keeps_def bindE_snd collaborator_apply returnE_apply Let_def
      split: option.splits sum.splits)

lemma keeps_publish:
  "keeps cache (publishOrderStatusChanged env order)"
  "keeps cache (publishOrderCreated env order)"
  "keeps store (publishOrderCreated env order)"
  by (simp_all add: keeps_def publishOrderStatusChanged_apply publishOrderCreated_apply
      Let_def split: option.splits)

lemma wc_cache_get:
  "triple world_consistent (cache_get env key)
     (\<lambda>v w. (\<forall>c. v = Some c \<longrightarrow> cached_consistent c) \<and> world_consistent w)
     (\<lambda>_. world_consistent)"
  by (auto simp: triple_def cache_get_apply world_consistent_def split: option.splits)

lemma wc_repo_findOne:
  "triple world_consistent (repo_findOne env i)
     (\<lambda>v w. (\<forall>order. v = Some order \<longrightarrow> cancel_fields_consistent order)
            \<and> world_consistent w)
     (\<lambda>_. world_consistent)"
  by (auto simp: triple_def repo_findOne_apply world_consistent_def split: option.splits)

lemma wc_cache_set:
  assumes "cached_consistent v"
  shows "triple world_consistent (cache_set env key v t)
           (\<lambda>_. world_consistent) (\<lambda>_. world_consistent)"
  using assms
  by (auto simp: triple_def cache_set_apply world_consistent_def update_conv'
      split: option.splits if_splits)

lemma wc_cache_del:
  "triple world_consistent (cache_del env key) (\<lambda>_. world_consistent) (\<lambda>_. world_consistent)"
  by (auto simp: triple_def cache_del_apply world_consistent_def delete_conv'
      split: option.splits if_splits)

lemma wc_repo_save:
  assumes "cancel_fields_consistent order"
  shows "triple world_consistent (repo_save env order)
           (\<lambda>saved w. cancel_fields_consistent saved \<and> world_consistent w)
           (\<lambda>_. world_consistent)"
  using assms
  by (auto simp: triple_def repo_save_apply world_consistent_def cancel_fields_consistent_def
      Let_def split: option.splits if_splits)

lemma wc_del_all: "world_consistent w \<Longrightarrow> world_consistent (snd (del_all env ks w))"
proof (induction ks arbitrary: w)
  case Nil
  then show ?case by (simp add: returnE_apply)
next
  case (Cons k ks)
  have "world_consistent (snd (cache_del env k w))"
    using Cons.prems
    by (auto simp: cache_del_apply world_consistent_def delete_conv'
        split: option.splits if_splits)
  from Cons.IH [OF this] show ?case
    by (simp add: del_all_Cons del: del_all.simps(2))
qed

lemma wc_invalidate:
  "triple world_consistent (invalidateUserOrdersCache env u)
     (\<lambda>_. world_consistent) (\<lambda>_. world_consistent)"
proof -
  have "world_consistent (snd (invalidateUserOrdersCache env u w))"
    if "world_consistent w" for w
  proof -
    have a: "world_consistent (w\<lparr>trace := tr\<rparr>)" for tr
      using that by (simp add: world_consistent_def)
    show ?thesis
      using that a wc_del_all
      by (simp add: invalidateUserOrdersCache_def bindE_snd cache_keys_def
          collaborator_apply returnE_apply split: option.splits)
  qed
  then show ?thesis
    by (auto simp: triple_def split: prod.splits sum.splits) (metis snd_conv)+
qed

lemma wc_return: "B x \<Longrightarrow> triple world_consistent (returnE x) (\<lambda>r w. B r \<and> world_consistent w) (\<lambda>_. world_consistent)"
  by (simp add: triple_def returnE_apply)

lemma wc_throw: "triple world_consistent (throwE e) Q (\<lambda>_. world_consistent)"
  by (simp add: triple_def throwE_apply)

lemma wc_now: "triple world_consistent now (\<lambda>_. world_consistent) (\<lambda>_. world_consistent)"
  by (simp add: triple_def now_apply)

lemma wc_plain:
  assumes "triple world_consistent m (\<lambda>r w. B r \<and> world_consistent w) (\<lambda>_. world_consistent)"
  shows "triple world_consistent m (\<lambda>_. world_consistent) (\<lambda>_. world_consistent)"
proof (rule tripleI)
  fix w e w' assume "world_consistent w" and "m w = (Inl e, w')"
  then show "world_consistent w'" using triple_Inl [OF assms] by blast
next
  fix w x w' assume "world_consistent w" and "m w = (Inr x, w')"
  then show "world_consistent w'" using triple_Inr [OF assms] by blast
qed

lemma wc_if_throw:
  "triple world_consistent (if b then throwE e else returnE ()) (\<lambda>_. world_consistent) (\<lambda>_. world_consistent)"
  by (simp add: triple_def throwE_apply returnE_apply)

lemma wc_snd:
  assumes "triple world_consistent m (\<lambda>_. world_consistent) (\<lambda>_. world_consistent)" and "world_consistent w"
  shows "world_consistent (snd (m w))"
  using assms by (cases "m w") (auto simp: triple_def split: sum.splits)

lemma wc_findOne:
  "triple world_consistent (findOne env i) (\<lambda>order w. cancel_fields_consistent order \<and> world_consistent w) (\<lambda>_. world_consistent)"
  unfolding findOne_def Let_def
  apply (rule triple_bind, rule wc_cache_get)
  apply (rule triple_pure)
  subgoal for hit
    apply (cases hit)
     apply simp
     apply (rule triple_bind, rule wc_repo_findOne)
     apply (rule triple_pure)
    subgoal for found
      apply (cases found)
       apply (simp add: wc_throw)
      apply simp
      apply (rule triple_bind, rule wc_cache_set, simp)
      apply (rule wc_return, simp)
      done
    subgoal for c
      apply (cases c)
       apply (simp add: wc_return)
      apply (simp add: wc_throw)
      done
    done
  done

lemma cfc_mutate:
  assumes "cancel_fields_consistent order" and "n \<in> spec_allowedNext (status order)"
  shows "cancel_fields_consistent
           (if n = CANCELLED
            then order\<lparr>status := n, cancelledAt := Some d, cancelReason := Some r\<rparr>
            else order\<lparr>status := n\<rparr>)"
  using assms by (cases "status order") (auto simp: cancel_fields_consistent_def)

lemma wc_validate:
  "triple world_consistent (validateStatusTransition c n) (\<lambda>_ w. n \<in> spec_allowedNext c \<and> world_consistent w) (\<lambda>_. world_consistent)"
  by (simp add: triple_def validateStatusTransition_def validTransitions_allowedNext
      throwE_apply returnE_apply)

lemma wc_publishOrderStatusChanged:
  "triple world_consistent (publishOrderStatusChanged env order) (\<lambda>_. world_consistent) (\<lambda>_. world_consistent)"
  by (rule wc_keeps [OF keeps_publishOrderStatusChanged(2) keeps_publish(1)])

lemma wc_updateStatus:
  "triple world_consistent (updateStatus env i dto)
     (\<lambda>c w. cancel_fields_consistent c \<and> world_consistent w) (\<lambda>_. world_consistent)"
  unfolding updateStatus_def Let_def
  apply (rule triple_bind, rule wc_findOne)
  apply (rule triple_pure)
  apply (rule triple_bind, rule wc_validate)
  apply (rule triple_pure)
  apply (rule triple_bind, rule wc_now)
  apply (rule triple_bind, rule wc_repo_save)
   apply (rule cfc_mutate, assumption, assumption)
  apply (rule triple_pure)
  apply (rule triple_bind, rule wc_publishOrderStatusChanged)
  apply (rule triple_bind, rule wc_cache_del)
  apply (rule triple_bind, rule wc_invalidate)
  apply (rule wc_return, assumption)
  done

lemma cfc_newOrder: "cancel_fields_consistent (newOrder env dto)"
  by (simp add: cancel_fields_consistent_def newOrder_def)

lemma wc_createOrder:
  "triple world_consistent (createOrder env dto) (\<lambda>_. world_consistent) (\<lambda>_. world_consistent)"
  unfolding createOrder_def
  apply (rule triple_bind, rule wc_repo_save, rule cfc_newOrder)
  apply (rule triple_pure)
  apply (rule triple_bind, rule wc_keeps [OF keeps_publish(3) keeps_publish(2)])
  apply (rule triple_bind, rule wc_keeps [OF keeps_store_prims(8) keeps_cache_prims(7)])
  apply (rule triple_bind, rule wc_invalidate)
  apply (rule wc_plain [OF wc_return [of "\<lambda>_. True"]], simp)
  done

lemma wc_validateOrder: "triple world_consistent (validateOrder env i) (\<lambda>_. world_consistent) (\<lambda>_. world_consistent)"
  unfolding validateOrder_def
  apply (rule triple_bind, rule wc_findOne)
  apply (rule triple_pure)
  apply (simp add: wc_throw wc_plain [OF wc_return [of "\<lambda>_. True"]])
  done

lemma wc_processOrderSteps: "triple world_consistent (processOrderSteps env i) (\<lambda>_. world_consistent) (\<lambda>_. world_consistent)"
  unfolding processOrderSteps_def
  apply (rule triple_bind, rule wc_keeps [OF keeps_store_prims(9) keeps_cache_prims(8)])
  apply (rule triple_bind, rule wc_validateOrder)
  apply (rule triple_bind, rule wc_keeps [OF keeps_store_prims(9) keeps_cache_prims(8)])
  apply (rule triple_bind, rule wc_keeps [OF keeps_store_prims(10) keeps_cache_prims(9)])
  apply (rule triple_bind, rule wc_if_throw)
  apply (rule triple_bind, rule wc_keeps [OF keeps_store_prims(9) keeps_cache_prims(8)])
  apply (rule triple_bind, rule wc_keeps [OF keeps_store_prims(11) keeps_cache_prims(10)])
  apply (rule triple_bind, rule wc_keeps [OF keeps_store_prims(9) keeps_cache_prims(8)])
  apply (rule triple_bind, rule wc_keeps [OF keeps_store_prims(12) keeps_cache_prims(11)])
  apply (rule triple_bind, rule wc_keeps [OF keeps_store_prims(9) keeps_cache_prims(8)])
  apply (rule triple_bind, rule wc_plain [OF wc_updateStatus])
  apply (rule wc_plain [OF wc_return [of "\<lambda>_. True"]], simp)
  done

lemma wc_handleOrderProcessing:
  "triple world_consistent (handleOrderProcessing env job) (\<lambda>_. world_consistent) (\<lambda>_. world_consistent)"
  unfolding handleOrderProcessing_def Let_def
  apply (rule triple_catch, rule wc_processOrderSteps)
  apply (rule triple_bind, rule wc_plain [OF wc_updateStatus])
  apply (rule wc_throw)
  done

lemma reachable_consistent: "reachable env w \<Longrightarrow> world_consistent w"
proof (induction rule: reachable.induct)
  case (start t)
  show ?case by (simp add: world_consistent_def)
next
  case (tick w t)
  then show ?case by (simp add: world_consistent_def)
next
  case (expire w key)
  then show ?case by (auto simp: world_consistent_def delete_conv' split: if_splits)
next
  case (create w dto)
  then show ?case by (intro wc_snd [OF wc_createOrder])
next
  case (find w i)
  then show ?case by (intro wc_snd [OF wc_plain [OF wc_findOne]])
next
  case (update w i upd)
  then show ?case by (intro wc_snd [OF wc_plain [OF wc_updateStatus]])
next
  case (process w job)
  then show ?case by (intro wc_snd [OF wc_handleOrderProcessing])
qed

lemma bindE_Inr: "m w = (Inr x, w') \<Longrightarrow> bindE m f w = f x w'"
  by (simp add: bindE_def)

lemma updateStatus_tail_store:
  "store (snd (bindE (publishOrderStatusChanged env u) (\<lambda>_.
          bindE (cache_del env k) (\<lambda>_.
          bindE (invalidateUserOrdersCache env uid) (\<lambda>_.
          returnE u))) w)) = store w"
  by (rule keepsD) (intro keeps_bind keeps_publishOrderStatusChanged keeps_store_prims
      keeps_invalidate keeps_return)

lemma updateStatus_tail_result:
  "fst (bindE (publishOrderStatusChanged env u) (\<lambda>_.
          bindE (cache_del env k) (\<lambda>_.
          bindE (invalidateUserOrdersCache env uid) (\<lambda>_.
          returnE u))) w) = Inr c \<Longrightarrow> c = u"
  by (simp add: bindE_snd returnE_apply split: sum.splits)

lemma updateStatus_write:
  "store (snd (updateStatus env i upd w)) = store w
   \<or> (\<exists>order c. fst (findOne env i w) = Inr order
        \<and> status_upd upd \<in> spec_allowedNext (status order)
        \<and> store (snd (updateStatus env i upd w)) = (store w)(oid c \<mapsto> c)
        \<and> status c = status_upd upd
        \<and> cancelledAt c = (if status_upd upd = CANCELLED then Some (clock w)
                            else cancelledAt order)
        \<and> cancelReason c = (if status_upd upd = CANCELLED
                             then Some (case cancelReason_upd upd of None \<Rightarrow> [] | Some r \<Rightarrow> r)
                             else cancelReason order)
        \<and> (\<forall>c'. fst (updateStatus env i upd w) = Inr c' \<longrightarrow> c' = c))"
proof (cases "findOne env i w")
  case (Pair a w1)
  have s1: "store w1 = store w"
    using findOne_store [of env i w] Pair by simp
  have c1: "clock w1 = clock w"
    using keepsD [OF keeps_findOne(3), of env i w] Pair by simp
  show ?thesis
  proof (cases a)
    case (Inl e)
    with Pair s1 show ?thesis
      by (simp add: updateStatus_def bindE_apply)
  next
    case (Inr order)
    with Pair have f: "findOne env i w = (Inr order, w1)" by simp
    show ?thesis
    proof (cases "status_upd upd \<in> spec_allowedNext (status order)")
      case False
      from updateStatus_invalid [OF f False] s1 show ?thesis by simp
    next
      case True
      define order' where "order' =
        (if status_upd upd = CANCELLED
         then order\<lparr>status := status_upd upd, cancelledAt := Some (clock w1),
                cancelReason := Some (case cancelReason_upd upd of None \<Rightarrow> [] | Some r \<Rightarrow> r)\<rparr>
         else order\<lparr>status := status_upd upd\<rparr>)"
      have v: "validateStatusTransition (status order) (status_upd upd) w1 = (Inr (), w1)"
        using True
        by (simp add: validateStatusTransition_def validTransitions_allowedNext returnE_apply)
      have u: "updateStatus env i upd w =
                 bindE (repo_save env order') (\<lambda>updatedOrder.
                   bindE (publishOrderStatusChanged env updatedOrder) (\<lambda>_.
                   bindE (cache_del env (''order:'' @ i)) (\<lambda>_.
                   bindE (invalidateUserOrdersCache env (userId order')) (\<lambda>_.
                   returnE updatedOrder)))) w1"
        unfolding updateStatus_def
        by (simp only: bindE_Inr [of "findOne env i" w order w1, OF f]
            bindE_Inr [of "validateStatusTransition (status order) (status_upd upd)" w1
              "()" w1, OF v]
            bindE_Inr [of now w1 "clock w1" w1, OF now_apply] Let_def order'_def)
      show ?thesis
      proof (cases "fault env (length (trace w1))")
        case (Some m)
        then have "store (snd (updateStatus env i upd w)) = store w"
          by (simp add: u bindE_apply repo_save_apply s1)
        then show ?thesis by simp
      next
        case None
        define c where "c =
          (if oid order' = []
           then order'\<lparr>oid := uuid env (length (trace w1)), createdAt := clock w1,
                  updatedAt := clock w1\<rparr>
           else order'\<lparr>updatedAt := clock w1\<rparr>)"
        define w2 where "w2 = w1\<lparr>trace := trace w1 @ [RepoSave order'],
                                 store := (store w1)(oid c \<mapsto> c)\<rparr>"
        have sv: "repo_save env order' w1 = (Inr c, w2)"
          using None by (simp add: repo_save_apply c_def w2_def Let_def)
        have u2: "updateStatus env i upd w =
                   bindE (publishOrderStatusChanged env c) (\<lambda>_.
                   bindE (cache_del env (''order:'' @ i)) (\<lambda>_.
                   bindE (invalidateUserOrdersCache env (userId order')) (\<lambda>_.
                   returnE c))) w2"
          by (simp only: u bindE_Inr [of "repo_save env order'" w1 c w2, OF sv])
        have st: "store (snd (updateStatus env i upd w)) = (store w)(oid c \<mapsto> c)"
          by (simp only: u2 updateStatus_tail_store) (simp add: w2_def s1)
        have rs: "c' = c" if "fst (updateStatus env i upd w) = Inr c'" for c'
          using that unfolding u2 by (rule updateStatus_tail_result)
        have fl: "status c = status_upd upd
          \<and> cancelledAt c = (if status_upd upd = CANCELLED then Some (clock w)
                              else cancelledAt order)
          \<and> cancelReason c = (if status_upd upd = CANCELLED
                               then Some (case cancelReason_upd upd of None \<Rightarrow> [] | Some r \<Rightarrow> r)
                               else cancelReason order)"
          by (simp add: c_def order'_def c1)
        from f True st rs fl show ?thesis
          by (intro disjI2 exI [of _ order] exI [of _ c]) simp
      qed
    qed
  qed
qed

lemma created_world_ok:
  "k \<noteq> 0 \<Longrightarrow> k \<noteq> 1 \<Longrightarrow> k \<noteq> 2 \<Longrightarrow> k \<noteq> 3 \<Longrightarrow> k \<noteq> 4 \<Longrightarrow>
   created_world (env_fault k m) =
     \<lparr>store = [''order-i'' \<mapsto> persisted env_ok dto_example world_empty], cache = [],
      trace = [RepoSave (newOrder env_ok dto_example),
               KafkaEmit ''order.created''
                 (ORDER_CREATED 5 ''order-i'' ''user-123'' (Number (99999 / 100)) PENDING 1),
               RabbitEmit ''order_created''
                 (ORDER_CREATED 5 ''order-i'' ''user-123'' (Number (99999 / 100)) PENDING 1),
               QueueAdd ''process-order''
                 \<lparr>orderId_job = ''order-i'', userId_job = ''user-123''\<rparr>,
               CacheKeys ''user-orders:user-123:*''],
      clock = 5\<rparr>"
  apply (simp add: created_world_def createOrder_def bindE_apply repo_save_new
      publishOrderCreated_apply queue_add_apply invalidateUserOrdersCache_def cache_keys_def
      collaborator_apply returnE_apply Let_def env_fault_def world_empty_def)
  apply (simp add: persisted_def newOrder_def number_simps dto_example_def laptop_def env_ok_def
      world_empty_def)
  done

lemma env_ok_simps:
  "fault env_ok n = None" "keys_supported env_ok"
  "uuid env_ok n = ''order-'' @ replicate (Suc n) CHR ''i''"
  by (simp_all add: env_ok_def)

lemma created_world_env_ok:
  "created_world env_ok =
     \<lparr>store = [''order-i'' \<mapsto> persisted env_ok dto_example world_empty], cache = [],
      trace = [RepoSave (newOrder env_ok dto_example),
               KafkaEmit ''order.created''
                 (ORDER_CREATED 5 ''order-i'' ''user-123'' (Number (99999 / 100)) PENDING 1),
               RabbitEmit ''order_created''
                 (ORDER_CREATED 5 ''order-i'' ''user-123'' (Number (99999 / 100)) PENDING 1),
               QueueAdd ''process-order''
                 \<lparr>orderId_job = ''order-i'', userId_job = ''user-123''\<rparr>,
               CacheKeys ''user-orders:user-123:*''],
      clock = 5\<rparr>"
  apply (simp add: created_world_def createOrder_def bindE_apply repo_save_new
      publishOrderCreated_apply queue_add_apply invalidateUserOrdersCache_def cache_keys_def
      collaborator_apply returnE_apply Let_def world_empty_def env_ok_simps)
  apply (simp add: persisted_def newOrder_def number_simps dto_example_def laptop_def env_ok_simps
      world_empty_def)
  done

lemmas example_simps = run_simps env_fault_def persisted_def newOrder_def number_simps dto_example_def
  laptop_def world_empty_def cancelled_world_def cancel_fields_def

text \<open>
  C9, as the specification states it, fails: the fields are not written once. When the
  deletion of the cache entry fails after the save of a cancellation, the cache keeps
  the copy of the pending order; a second cancellation is then validated against that
  copy and saved, with a new date and a new reason.
\<close>

theorem cancel_fields_rewritten_counterexample:
  "reachable env_stale
     (cancelled_world env_stale ''second''
        ((cancelled_world env_stale ''first'' (created_world env_stale))\<lparr>clock := 9\<rparr>))
   \<and> map_option cancel_fields
        (store (cancelled_world env_stale ''first'' (created_world env_stale)) ''order-i'')
       = Some (CANCELLED, Some 5, Some ''first'')
   \<and> map_option cancel_fields
        (store (cancelled_world env_stale ''second''
                  ((cancelled_world env_stale ''first'' (created_world env_stale))
                     \<lparr>clock := 9\<rparr>)) ''order-i'')
       = Some (CANCELLED, Some 9, Some ''second'')"
proof -
  have c: "clock (cancelled_world env_stale ''first'' (created_world env_stale)) \<le> 9"
    by (simp add: cancelled_world_def keepsD [OF keeps_updateStatus(2)] env_stale_def
        created_world_ok)
  have r: "reachable env_stale
     (cancelled_world env_stale ''second''
        ((cancelled_world env_stale ''first'' (created_world env_stale))\<lparr>clock := 9\<rparr>))"
    unfolding cancelled_world_def [of env_stale "''second''"]
    apply (rule reachable.update)
    apply (rule reachable.tick [OF _ c])
    unfolding cancelled_world_def created_world_def world_empty_def
    apply (intro reachable.update reachable.create reachable.start)
    done
  have w2: "cancelled_world env_stale ''first'' (created_world env_stale) =
     \<lparr>store = [''order-i'' \<mapsto> (persisted env_ok dto_example world_empty)
                 \<lparr>status := CANCELLED, cancelledAt := Some 5, cancelReason := Some ''first'',
                  updatedAt := 5\<rparr>],
      cache = [(''order:order-i'',
                \<lparr>cached = CachedOrder (persisted env_ok dto_example world_empty), ttl = 300\<rparr>)],
      trace = trace (created_world env_stale) @
        [CacheGet ''order:order-i'', RepoFindOne ''order-i'',
         CacheSet ''order:order-i'' (CachedOrder (persisted env_ok dto_example world_empty)) 300,
         RepoSave ((persisted env_ok dto_example world_empty)
                 \<lparr>status := CANCELLED, cancelledAt := Some 5, cancelReason := Some ''first''\<rparr>),
         KafkaEmit ''order.status.changed''
           (ORDER_STATUS_CHANGED 5 ''order-i'' ''user-123'' CANCELLED (Number (99999 / 100))),
         CacheDel ''order:order-i''],
      clock = 5\<rparr>"
    by (simp add: env_stale_def created_world_ok) (simp add: example_simps)
  have a: "map_option cancel_fields
        (store (cancelled_world env_stale ''first'' (created_world env_stale)) ''order-i'')
       = Some (CANCELLED, Some 5, Some ''first'')"
    by (simp add: w2) (simp add: example_simps)
  have b: "map_option cancel_fields
        (store (cancelled_world env_stale ''second''
                  ((cancelled_world env_stale ''first'' (created_world env_stale))
                     \<lparr>clock := 9\<rparr>)) ''order-i'')
       = Some (CANCELLED, Some 9, Some ''second'')"
    by (simp add: w2 env_stale_def created_world_ok) (simp add: example_simps)
  from r a b show ?thesis by simp
qed

text \<open>
  C9, amended. In every reachable world, every stored order and every cached copy of an
  order has \<^verbatim>\<open>cancelledAt\<close> and \<^verbatim>\<open>cancelReason\<close> non-null if and only if its status is
  \<^verbatim>\<open>CANCELLED\<close>. \<^verbatim>\<open>updateStatus\<close> either leaves the store as it was or saves one
  order, made from the copy it loaded by an allowed transition: with the date of the
  call and the given reason (or the empty string) when the requested status is
  \<^verbatim>\<open>CANCELLED\<close>, and with the two fields of the loaded copy otherwise; when the loaded
  copy is \<^verbatim>\<open>CANCELLED\<close> it saves nothing. \<^verbatim>\<open>findOne\<close> leaves the store as it was,
  and \<^verbatim>\<open>createOrder\<close> at most adds the new order, pending and with both fields null.
\<close>

theorem cancel_fields_discipline:
  "(reachable env w \<longrightarrow> world_consistent w)
   \<and> (store (snd (updateStatus env i upd w)) = store w
      \<or> (\<exists>order c. fst (findOne env i w) = Inr order
            \<and> status_upd upd \<in> spec_allowedNext (status order)
            \<and> store (snd (updateStatus env i upd w)) = (store w)(oid c \<mapsto> c)
            \<and> status c = status_upd upd
            \<and> cancelledAt c = (if status_upd upd = CANCELLED then Some (clock w)
                                else cancelledAt order)
            \<and> cancelReason c = (if status_upd upd = CANCELLED
                                 then Some (case cancelReason_upd upd of
                                              None \<Rightarrow> [] | Some r \<Rightarrow> r)
                                 else cancelReason order)
            \<and> (\<forall>c'. fst (updateStatus env i upd w) = Inr c' \<longrightarrow> c' = c)))
   \<and> (\<forall>order. fst (findOne env i w) = Inr order \<and> status order = CANCELLED \<longrightarrow>
         store (snd (updateStatus env i upd w)) = store w)
   \<and> store (snd (findOne env i w)) = store w
   \<and> (store (snd (createOrder env dto w)) = store w
      \<or> store (snd (createOrder env dto w)) =
          (store w)(uuid env (length (trace w)) \<mapsto> persisted env dto w))
   \<and> cancelledAt (persisted env dto w) = None \<and> cancelReason (persisted env dto w) = None
   \<and> status (persisted env dto w) = PENDING"
proof -
  have a: "reachable env w \<longrightarrow> world_consistent w"
    using reachable_consistent by blast
  have c: "store (snd (updateStatus env i upd w)) = store w"
    if fo: "fst (findOne env i w) = Inr order" and st: "status order = CANCELLED" for order
  proof -
    obtain w1 where f: "findOne env i w = (Inr order, w1)"
      using fo by (cases "findOne env i w") simp
    have "status_upd upd \<notin> spec_allowedNext (status order)"
      using st by simp
    from updateStatus_invalid [OF f this] findOne_store [of env i w] f show ?thesis
      by simp
  qed
  have e: "store (snd (createOrder env dto w)) = store w
      \<or> store (snd (createOrder env dto w)) =
          (store w)(uuid env (length (trace w)) \<mapsto> persisted env dto w)"
    by (cases "fault env (length (trace w))") (simp_all add: createOrder_store)
  have p: "cancelledAt (persisted env dto w) = None \<and> cancelReason (persisted env dto w) = None
   \<and> status (persisted env dto w) = PENDING"
    by (simp add: persisted_def newOrder_def)
  from a updateStatus_write [of env i upd w] c findOne_store [of env i w] e p
  show ?thesis by blast
qed

theorem cancel_fields_discipline_witness:
  "reachable env_ok (cancelled_world env_ok ''no longer needed'' (created_world env_ok))
   \<and> world_consistent (cancelled_world env_ok ''no longer needed'' (created_world env_ok))
   \<and> map_option cancel_fields
        (store (cancelled_world env_ok ''no longer needed'' (created_world env_ok)) ''order-i'')
       = Some (CANCELLED, Some 5, Some ''no longer needed'')
   \<and> map_sum id status
        (fst (findOne env_ok ''order-i''
               (cancelled_world env_ok ''no longer needed'' (created_world env_ok))))
       = Inr CANCELLED
   \<and> store (snd (updateStatus env_ok ''order-i'' (cancelDto ''again'')
                   (cancelled_world env_ok ''no longer needed'' (created_world env_ok))))
       = store (cancelled_world env_ok ''no longer needed'' (created_world env_ok))"
proof -
  let ?w = "cancelled_world env_ok ''no longer needed'' (created_world env_ok)"
  have r: "reachable env_ok ?w"
    unfolding cancelled_world_def created_world_def world_empty_def
    by (intro reachable.update reachable.create reachable.start)
  have s: "map_option cancel_fields (store ?w ''order-i'')
       = Some (CANCELLED, Some 5, Some ''no longer needed'')"
    by (simp add: created_world_env_ok) (simp add: example_simps)
  have f: "\<exists>order. fst (findOne env_ok ''order-i'' ?w) = Inr order \<and> status order = CANCELLED"
    by (simp add: created_world_env_ok) (simp add: example_simps)
  then obtain order where fo: "fst (findOne env_ok ''order-i'' ?w) = Inr order"
    and st: "status order = CANCELLED"
    by blast
  note th = cancel_fields_discipline [of env_ok ?w "''order-i''" "cancelDto ''again''"]
  have c: "world_consistent ?w"
    using th r by blast
  have u: "store (snd (updateStatus env_ok ''order-i'' (cancelDto ''again'') ?w)) = store ?w"
    using th fo st by blast
  from r c s u fo st show ?thesis by simp
qed


section \<open>Orders stored and cached under their id\<close>



























section \<open>Copies left in the cache\<close>

text \<open>
  The copy \<^verbatim>\<open>findOne\<close> returns on a hit, and the worlds of the two examples where
  the deletion of the cache entry fails after a cancellation was saved.
\<close>

lemma findOne_hit_loaded:
  assumes "fst (findOne env i w) = Inr order"
    and "map_of (cache w) (''order:'' @ i) = Some entry"
  shows "cached entry = CachedOrder order"
  using assms
  by (simp add: findOne_def bindE_snd cache_get_def repo_findOne_def cache_set_def
      collaborator_apply returnE_apply throwE_apply Let_def
      split: option.splits sum.splits cache_value.splits)

lemma created_empty_ok:
  "k \<noteq> 0 \<Longrightarrow> k \<noteq> 2 \<Longrightarrow> k \<noteq> 3 \<Longrightarrow> k \<noteq> 4 \<Longrightarrow>
   snd (createOrder (env_fault k m) dto_empty world_empty) =
     \<lparr>store = [''order-i'' \<mapsto> persisted env_ok dto_empty world_empty], cache = [],
      trace = [RepoSave (newOrder env_ok dto_empty),
               KafkaEmit ''order.created''
                 (ORDER_CREATED 5 ''order-i'' ''user-123'' (Number 0) PENDING 0),
               RabbitEmit ''order_created''
                 (ORDER_CREATED 5 ''order-i'' ''user-123'' (Number 0) PENDING 0),
               QueueAdd ''process-order''
                 \<lparr>orderId_job = ''order-i'', userId_job = ''user-123''\<rparr>,
               CacheKeys ''user-orders:user-123:*''],
      clock = 5\<rparr>"
  apply (simp add: createOrder_def bindE_apply repo_save_new
      publishOrderCreated_apply queue_add_apply invalidateUserOrdersCache_def cache_keys_def
      collaborator_apply returnE_apply Let_def env_fault_def world_empty_def)
  apply (simp add: persisted_def newOrder_def dto_empty_def env_ok_def
      world_empty_def)
  done

lemma stale_world_example:
  "stale_world dto_example =
     \<lparr>store = [''order-i'' \<mapsto> (persisted env_ok dto_example world_empty)
                 \<lparr>status := CANCELLED, cancelledAt := Some 5, cancelReason := Some ''first'',
                  updatedAt := 5\<rparr>],
      cache = [(''order:order-i'',
                \<lparr>cached = CachedOrder (persisted env_ok dto_example world_empty), ttl = 300\<rparr>)],
      trace = trace (created_world env_stale) @
        [CacheGet ''order:order-i'', RepoFindOne ''order-i'',
         CacheSet ''order:order-i'' (CachedOrder (persisted env_ok dto_example world_empty)) 300,
         RepoSave ((persisted env_ok dto_example world_empty)
                 \<lparr>status := CANCELLED, cancelledAt := Some 5, cancelReason := Some ''first''\<rparr>),
         KafkaEmit ''order.status.changed''
           (ORDER_STATUS_CHANGED 5 ''order-i'' ''user-123'' CANCELLED (Number (99999 / 100))),
         CacheDel ''order:order-i''],
      clock = 5\<rparr>"
  unfolding stale_world_def created_world_def [symmetric]
  by (simp add: env_stale_def created_world_ok) (simp add: example_simps)

lemma stale_world_empty:
  "stale_world dto_empty =
     \<lparr>store = [''order-i'' \<mapsto> (persisted env_ok dto_empty world_empty)
                 \<lparr>status := CANCELLED, cancelledAt := Some 5, cancelReason := Some ''first'',
                  updatedAt := 5\<rparr>],
      cache = [(''order:order-i'',
                \<lparr>cached = CachedOrder (persisted env_ok dto_empty world_empty), ttl = 300\<rparr>)],
      trace = trace (snd (createOrder env_stale dto_empty world_empty)) @
        [CacheGet ''order:order-i'', RepoFindOne ''order-i'',
         CacheSet ''order:order-i'' (CachedOrder (persisted env_ok dto_empty world_empty)) 300,
         RepoSave ((persisted env_ok dto_empty world_empty)
                 \<lparr>status := CANCELLED, cancelledAt := Some 5, cancelReason := Some ''first''\<rparr>),
         KafkaEmit ''order.status.changed''
           (ORDER_STATUS_CHANGED 5 ''order-i'' ''user-123'' CANCELLED (Number 0)),
         CacheDel ''order:order-i''],
      clock = 5\<rparr>"
  unfolding stale_world_def
  by (simp add: env_stale_def created_empty_ok) (simp add: example_simps dto_empty_def)


section \<open>Status transitions\<close>

text \<open>
  C1, as the specification states it, fails: the status a transition is validated
  against is that of the copy \<^verbatim>\<open>findOne\<close> returns, the cached copy when the cache
  holds one. In the reachable world \<open>stale_world dto_example\<close> the stored order is
  \<^verbatim>\<open>CANCELLED\<close> and the cache still holds the copy of the pending order: the request
  to confirm the order is accepted and saved, although \<^verbatim>\<open>CONFIRMED\<close> is not allowed
  after \<^verbatim>\<open>CANCELLED\<close>.
\<close>

theorem updateStatus_stale_copy_counterexample:
  "reachable env_stale (stale_world dto_example)
   \<and> map_option status (store (stale_world dto_example) ''order-i'') = Some CANCELLED
   \<and> CONFIRMED \<notin> spec_allowedNext CANCELLED
   \<and> map_sum id status
        (fst (updateStatus env_stale ''order-i''
                \<lparr>status_upd = CONFIRMED, cancelReason_upd = None\<rparr> (stale_world dto_example)))
       = Inr CONFIRMED
   \<and> map_option status
        (store (snd (updateStatus env_stale ''order-i''
                       \<lparr>status_upd = CONFIRMED, cancelReason_upd = None\<rparr>
                       (stale_world dto_example))) ''order-i'')
       = Some CONFIRMED"
proof -
  have r: "reachable env_stale (stale_world dto_example)"
    unfolding stale_world_def world_empty_def
    by (intro reachable.update reachable.create reachable.start)
  have a: "map_option status (store (stale_world dto_example) ''order-i'') = Some CANCELLED"
    by (simp add: stale_world_example)
  have b: "map_sum id status
        (fst (updateStatus env_stale ''order-i''
                \<lparr>status_upd = CONFIRMED, cancelReason_upd = None\<rparr> (stale_world dto_example)))
       = Inr CONFIRMED"
    by (simp add: stale_world_example env_stale_def created_world_ok) (simp add: example_simps)
  have c: "map_option status
        (store (snd (updateStatus env_stale ''order-i''
                       \<lparr>status_upd = CONFIRMED, cancelReason_upd = None\<rparr>
                       (stale_world dto_example))) ''order-i'')
       = Some CONFIRMED"
    by (simp add: stale_world_example env_stale_def created_world_ok) (simp add: example_simps)
  from r a b c show ?thesis by simp
qed

text \<open>
  C1, amended. Let \<open>order\<close> be the order \<^verbatim>\<open>updateStatus\<close> loads through
  \<^verbatim>\<open>findOne\<close>: the copy cached under \<^verbatim>\<open>order:<id>\<close> when the cache holds one, the
  stored order when it holds none. Let \<open>current\<close> be its status. If the requested
  status is not in \<open>allowedNext current\<close>, \<^verbatim>\<open>updateStatus\<close> fails with the
  \<^verbatim>\<open>BadRequestException\<close> of an invalid transition, does nothing after the load and
  leaves the store as it was. So it succeeds only for a requested status in
  \<open>allowedNext current\<close>. The table of the code is the table of the specification
  (\<open>validTransitions_allowedNext\<close>), and no status is allowed to follow itself.
\<close>

theorem updateStatus_transition_table:
  assumes "fst (findOne env i w) = Inr order"
  shows "(status_upd dto \<notin> spec_allowedNext (status order) \<longrightarrow>
            fst (updateStatus env i dto w) =
              Inl (BadRequestException (''Invalid status transition from ''
                     @ status_string (status order) @ '' to ''
                     @ status_string (status_upd dto)))
            \<and> snd (updateStatus env i dto w) = snd (findOne env i w)
            \<and> store (snd (updateStatus env i dto w)) = store w)
       \<and> ((\<exists>updated. fst (updateStatus env i dto w) = Inr updated) \<longrightarrow>
            status_upd dto \<in> spec_allowedNext (status order))
       \<and> set (validTransitions (status order)) = spec_allowedNext (status order)
       \<and> status order \<notin> spec_allowedNext (status order)
       \<and> (map_of (cache w) (''order:'' @ i) = None \<longrightarrow> store w i = Some order)
       \<and> (\<forall>entry. map_of (cache w) (''order:'' @ i) = Some entry \<longrightarrow>
             cached entry = CachedOrder order)"
proof -
  obtain w1 where f: "findOne env i w = (Inr order, w1)"
    using assms by (cases "findOne env i w") simp
  have s: "store w1 = store w"
    using findOne_store [of env i w] f by simp
  have miss: "map_of (cache w) (''order:'' @ i) = None \<longrightarrow> store w i = Some order"
    using findOne_miss_loaded [OF assms] by blast
  have hit: "\<forall>entry. map_of (cache w) (''order:'' @ i) = Some entry \<longrightarrow>
             cached entry = CachedOrder order"
    using findOne_hit_loaded [OF assms] by blast
  have bad: "updateStatus env i dto w =
      (Inl (BadRequestException (''Invalid status transition from ''
              @ status_string (status order) @ '' to '' @ status_string (status_upd dto))), w1)"
    if "status_upd dto \<notin> spec_allowedNext (status order)"
    using that
    by (simp add: updateStatus_def bindE_apply f validateStatusTransition_def
        validTransitions_allowedNext throwE_apply)
  have self: "status order \<notin> spec_allowedNext (status order)"
    by (cases "status order") simp_all
  have ok: "status_upd dto \<in> spec_allowedNext (status order)"
    if "fst (updateStatus env i dto w) = Inr updated" for updated
  proof (rule ccontr)
    assume "status_upd dto \<notin> spec_allowedNext (status order)"
    from bad [OF this] that show False by simp
  qed
  from bad f s have "status_upd dto \<notin> spec_allowedNext (status order) \<longrightarrow>
            fst (updateStatus env i dto w) =
              Inl (BadRequestException (''Invalid status transition from ''
                     @ status_string (status order) @ '' to ''
                     @ status_string (status_upd dto)))
            \<and> snd (updateStatus env i dto w) = snd (findOne env i w)
            \<and> store (snd (updateStatus env i dto w)) = store w"
    by simp
  with ok self miss hit validTransitions_allowedNext [of "status order"] show ?thesis by blast
qed

theorem updateStatus_transition_table_witness:
  "fst (findOne env_ok ''order-123'' (world_example DELIVERED)) = Inr (order_example DELIVERED)
   \<and> fst (updateStatus env_ok ''order-123''
            \<lparr>status_upd = PROCESSING, cancelReason_upd = None\<rparr> (world_example DELIVERED)) =
       Inl (BadRequestException ''Invalid status transition from delivered to processing'')
   \<and> store (snd (updateStatus env_ok ''order-123''
            \<lparr>status_upd = PROCESSING, cancelReason_upd = None\<rparr> (world_example DELIVERED))) =
       store (world_example DELIVERED)
   \<and> store (world_example DELIVERED) ''order-123'' = Some (order_example DELIVERED)
   \<and> fst (updateStatus env_ok ''order-123''
            \<lparr>status_upd = CONFIRMED, cancelReason_upd = None\<rparr> (world_example PENDING)) =
       Inr ((order_example CONFIRMED)\<lparr>updatedAt := 5\<rparr>)
   \<and> CONFIRMED \<in> spec_allowedNext (status (order_example PENDING))"
proof -
  have f: "fst (findOne env_ok ''order-123'' (world_example s)) = Inr (order_example s)" for s
    by (simp add: findOne_def bindE_apply cache_get_def repo_findOne_def cache_set_def
        collaborator_apply returnE_apply Let_def env_ok_def world_example_def)
  have s: "status (order_example DELIVERED) = DELIVERED"
    by (simp add: order_example_def)
  have st: "store (world_example DELIVERED) ''order-123'' = Some (order_example DELIVERED)"
    by (simp add: world_example_def)
  have u: "fst (updateStatus env_ok ''order-123''
            \<lparr>status_upd = CONFIRMED, cancelReason_upd = None\<rparr> (world_example PENDING)) =
       Inr ((order_example CONFIRMED)\<lparr>updatedAt := 5\<rparr>)"
    by (simp add: updateStatus_def findOne_def io_simps prim_defs env_ok_def
        world_example_def validateStatusTransition_def validTransitions_def
        publishOrderStatusChanged_def invalidateUserOrdersCache_def order_example_def)
  note rejected = updateStatus_transition_table [OF f [of DELIVERED],
      of "\<lparr>status_upd = PROCESSING, cancelReason_upd = None\<rparr>"]
  note accepted = updateStatus_transition_table [OF f [of PENDING],
      of "\<lparr>status_upd = CONFIRMED, cancelReason_upd = None\<rparr>"]
  have a: "CONFIRMED \<in> spec_allowedNext (status (order_example PENDING))"
    using accepted u by simp
  from rejected f s st u a show ?thesis by (simp add: findOne_store)
qed


section \<open>The job \<^verbatim>\<open>process-order\<close>\<close>





text \<open>
  C10, as the specification states it, fails where the cache holds a stale copy: the
  \<^verbatim>\<open>catch\<close> block validates the cancellation against the copy \<^verbatim>\<open>findOne\<close>
  returns. In the reachable world \<open>stale_world dto_empty\<close> the stored order, which has
  no item, is already \<^verbatim>\<open>CANCELLED\<close> and the cache holds the copy of the pending
  order. The \<^verbatim>\<open>try\<close> block of its job raises \<^verbatim>\<open>Order has no items\<close>, the
  cancellation is accepted and saved once more, and the handler raises the error of the
  pipeline, not the rejection of a transition.
\<close>

theorem cancellation_of_stale_copy_counterexample:
  "reachable env_stale (stale_world dto_empty)
   \<and> map_option status (store (stale_world dto_empty) ''order-i'') = Some CANCELLED
   \<and> CANCELLED \<notin> spec_allowedNext CANCELLED
   \<and> fst (processOrderSteps env_stale ''order-i'' (stale_world dto_empty))
       = Inl (Error ''Order has no items'')
   \<and> map_option status
        (store (snd (processOrderSteps env_stale ''order-i'' (stale_world dto_empty))) ''order-i'')
       = Some CANCELLED
   \<and> fst (handleOrderProcessing env_stale job_created (stale_world dto_empty))
       = Inl (Error ''Order has no items'')
   \<and> map_option cancel_fields
        (store (snd (handleOrderProcessing env_stale job_created (stale_world dto_empty)))
           ''order-i'')
       = Some (CANCELLED, Some 5, Some ''Order has no items'')"
proof -
  have r: "reachable env_stale (stale_world dto_empty)"
    unfolding stale_world_def world_empty_def
    by (intro reachable.update reachable.create reachable.start)
  have a: "map_option status (store (stale_world dto_empty) ''order-i'') = Some CANCELLED"
    by (simp add: stale_world_empty)
  have b: "fst (processOrderSteps env_stale ''order-i'' (stale_world dto_empty))
       = Inl (Error ''Order has no items'')"
    by (simp add: stale_world_empty env_stale_def created_empty_ok)
       (simp add: example_simps dto_empty_def)
  have c: "map_option status
        (store (snd (processOrderSteps env_stale ''order-i'' (stale_world dto_empty))) ''order-i'')
       = Some CANCELLED"
    by (simp add: stale_world_empty env_stale_def created_empty_ok)
       (simp add: example_simps dto_empty_def)
  have d: "fst (handleOrderProcessing env_stale job_created (stale_world dto_empty))
       = Inl (Error ''Order has no items'')"
    by (simp add: stale_world_empty env_stale_def created_empty_ok)
       (simp add: example_simps dto_empty_def job_created_def)
  have e: "map_option cancel_fields
        (store (snd (handleOrderProcessing env_stale job_created (stale_world dto_empty)))
           ''order-i'')
       = Some (CANCELLED, Some 5, Some ''Order has no items'')"
    by (simp add: stale_world_empty env_stale_def created_empty_ok)
       (simp add: example_simps dto_empty_def job_created_def)
  from r a b c d e show ?thesis by simp
qed

text \<open>
  C10, amended. The \<^verbatim>\<open>catch\<close> block of the handler calls \<^verbatim>\<open>updateStatus\<close> with
  \<^verbatim>\<open>CANCELLED\<close> whatever the error. When the \<^verbatim>\<open>try\<close> block has raised \<open>e\<close> and the
  order that call loads (the copy cached under \<^verbatim>\<open>order:<id>\<close> when the cache holds
  one, the stored order when it holds none) is in a status with no edge to
  \<^verbatim>\<open>CANCELLED\<close> (that is \<^verbatim>\<open>SHIPPED\<close>, \<^verbatim>\<open>DELIVERED\<close> or \<^verbatim>\<open>CANCELLED\<close>), the
  handler raises the \<^verbatim>\<open>BadRequestException\<close> of the invalid transition to
  \<^verbatim>\<open>cancelled\<close>, which is never the error \<open>e\<close> of the pipeline, and the store is left
  as the \<^verbatim>\<open>try\<close> block left it.
\<close>

theorem cancellation_failure_masks_error:
  assumes "fst (processOrderSteps env (orderId_job job) w) = Inl e"
    and "fst (findOne env (orderId_job job) (snd (processOrderSteps env (orderId_job job) w)))
           = Inr order"
    and "CANCELLED \<notin> spec_allowedNext (status order)"
  shows "fst (handleOrderProcessing env job w) =
           Inl (BadRequestException (''Invalid status transition from ''
                  @ status_string (status order) @ '' to cancelled''))
       \<and> BadRequestException (''Invalid status transition from ''
             @ status_string (status order) @ '' to cancelled'') \<noteq> e
       \<and> store (snd (handleOrderProcessing env job w)) =
           store (snd (processOrderSteps env (orderId_job job) w))
       \<and> handleOrderProcessing env job w =
           (case processOrderSteps env (orderId_job job) w of
              (Inr r, w1) \<Rightarrow> (Inr r, w1)
            | (Inl e, w1) \<Rightarrow>
                (case updateStatus env (orderId_job job) (cancelDto (message e)) w1 of
                   (Inr _, w2) \<Rightarrow> (Inl e, w2)
                 | (Inl e', w2) \<Rightarrow> (Inl e', w2)))
       \<and> (status order = SHIPPED \<or> status order = DELIVERED \<or> status order = CANCELLED)
       \<and> (map_of (cache (snd (processOrderSteps env (orderId_job job) w)))
             (''order:'' @ orderId_job job) = None \<longrightarrow>
           store (snd (processOrderSteps env (orderId_job job) w)) (orderId_job job)
             = Some order)
       \<and> (\<forall>entry. map_of (cache (snd (processOrderSteps env (orderId_job job) w)))
             (''order:'' @ orderId_job job) = Some entry \<longrightarrow>
           cached entry = CachedOrder order)"
proof -
  let ?i = "orderId_job job"
  obtain w1 where p: "processOrderSteps env ?i w = (Inl e, w1)"
    using assms(1) by (cases "processOrderSteps env ?i w") simp
  obtain w2 where f: "findOne env ?i w1 = (Inr order, w2)"
    using assms(2) p by (cases "findOne env ?i w1") simp
  have u: "updateStatus env ?i (cancelDto (message e)) w1 =
      (Inl (BadRequestException (''Invalid status transition from ''
              @ status_string (status order) @ '' to cancelled'')), w2)"
    using updateStatus_invalid [OF f, of "cancelDto (message e)"] assms(3)
    by (simp add: cancelDto_def)
  have h: "handleOrderProcessing env job w =
           (case processOrderSteps env ?i w of
              (Inr r, w1) \<Rightarrow> (Inr r, w1)
            | (Inl e, w1) \<Rightarrow>
                (case updateStatus env ?i (cancelDto (message e)) w1 of
                   (Inr _, w2) \<Rightarrow> (Inl e, w2)
                 | (Inl e', w2) \<Rightarrow> (Inl e', w2)))"
    by (simp add: handleOrderProcessing_def Let_def catchE_apply bindE_apply throwE_apply
        cancelDto_def split: prod.splits sum.splits)
  have s: "store w2 = store w1"
    using findOne_store [of env ?i w1] f by simp
  have k: "no_cancel_rejection e"
    using raisesD [OF raises_processOrderSteps assms(1)] .
  have d: "BadRequestException (''Invalid status transition from ''
             @ status_string (status order) @ '' to cancelled'') \<noteq> e"
  proof
    assume "BadRequestException (''Invalid status transition from ''
             @ status_string (status order) @ '' to cancelled'') = e"
    with k obtain s where "''Invalid status transition from ''
             @ status_string (status order) @ '' to cancelled''
        = ''Invalid status transition from '' @ status_string s @ '' to confirmed''"
      by auto
    then have "status_string (status order) @ '' to cancelled''
        = status_string s @ '' to confirmed''"
      by simp
    with cancel_message_differs show False by blast
  qed
  have t: "status order = SHIPPED \<or> status order = DELIVERED \<or> status order = CANCELLED"
    using assms(3) by (cases "status order") simp_all
  have miss: "map_of (cache (snd (processOrderSteps env ?i w))) (''order:'' @ ?i) = None \<longrightarrow>
           store (snd (processOrderSteps env ?i w)) ?i = Some order"
    using findOne_miss_loaded [OF assms(2)] by blast
  have hit: "\<forall>entry. map_of (cache (snd (processOrderSteps env ?i w))) (''order:'' @ ?i)
                = Some entry \<longrightarrow> cached entry = CachedOrder order"
    using findOne_hit_loaded [OF assms(2)] by blast
  from h p u s d t have "fst (handleOrderProcessing env job w) =
           Inl (BadRequestException (''Invalid status transition from ''
                  @ status_string (status order) @ '' to cancelled''))
       \<and> BadRequestException (''Invalid status transition from ''
             @ status_string (status order) @ '' to cancelled'') \<noteq> e
       \<and> store (snd (handleOrderProcessing env job w)) =
           store (snd (processOrderSteps env (orderId_job job) w))
       \<and> handleOrderProcessing env job w =
           (case processOrderSteps env (orderId_job job) w of
              (Inr r, w1) \<Rightarrow> (Inr r, w1)
            | (Inl e, w1) \<Rightarrow>
                (case updateStatus env (orderId_job job) (cancelDto (message e)) w1 of
                   (Inr _, w2) \<Rightarrow> (Inl e, w2)
                 | (Inl e', w2) \<Rightarrow> (Inl e', w2)))
       \<and> (status order = SHIPPED \<or> status order = DELIVERED \<or> status order = CANCELLED)"
    by simp
  with miss hit show ?thesis by blast
qed

theorem cancellation_failure_masks_error_witness:
  "fst (processOrderSteps env_ok ''order-9'' (world_noitems DELIVERED))
     = Inl (Error ''Order has no items'')
   \<and> fst (handleOrderProcessing env_ok job_example (world_noitems DELIVERED))
     = Inl (BadRequestException ''Invalid status transition from delivered to cancelled'')
   \<and> store (snd (handleOrderProcessing env_ok job_example (world_noitems DELIVERED))) ''order-9''
     = Some (order_noitems DELIVERED)"
proof -
  have j: "orderId_job job_example = ''order-9''"
    by (simp add: job_example_def)
  have p: "fst (processOrderSteps env_ok (orderId_job job_example) (world_noitems DELIVERED))
             = Inl (Error ''Order has no items'')"
    by (simp add: j noitems_steps_raise)
  have f: "fst (findOne env_ok (orderId_job job_example)
                  (snd (processOrderSteps env_ok (orderId_job job_example)
                          (world_noitems DELIVERED))))
             = Inr (order_noitems DELIVERED)"
    by (simp add: j noitems_steps_raise)
       (simp add: findOne_def io_simps cache_get_def env_ok_def world_noitems_def)
  have c: "CANCELLED \<notin> spec_allowedNext (status (order_noitems DELIVERED))"
    by (simp add: order_noitems_def)
  have s: "store (snd (processOrderSteps env_ok (orderId_job job_example)
                          (world_noitems DELIVERED))) ''order-9''
             = Some (order_noitems DELIVERED)"
    by (simp add: j noitems_steps_raise) (simp add: world_noitems_def)
  have t: "status_string (status (order_noitems DELIVERED)) = ''delivered''"
    by (simp add: order_noitems_def)
  note th = cancellation_failure_masks_error [OF p f c]
  have a: "fst (handleOrderProcessing env_ok job_example (world_noitems DELIVERED)) =
           Inl (BadRequestException (''Invalid status transition from ''
                  @ status_string (status (order_noitems DELIVERED)) @ '' to cancelled''))"
    by (rule th [THEN conjunct1])
  have b: "store (snd (handleOrderProcessing env_ok job_example (world_noitems DELIVERED))) =
           store (snd (processOrderSteps env_ok (orderId_job job_example)
                         (world_noitems DELIVERED)))"
    by (rule th [THEN conjunct2, THEN conjunct2, THEN conjunct1])
  from a b p s t j show ?thesis
    by simp
qed




end
